theory Spec2Isabelle
  imports Main "HOL-Library.Word"
begin

section \<open>The contract NFTPortfolioFHE (contracts/NFT\_Portfolio\_Fhe.sol)\<close>

text \<open>
  A shallow embedding of the Solidity contract. Storage is a record that every external
  function receives and returns; a revert is the left injection of a sum, so a reverted
  call carries no storage at all and the caller keeps the storage it had. Solidity 0.8
  arithmetic is checked: an overflowing \<open>+\<close> or \<open>++\<close> reverts with a panic, which is
  written out. \<open>msg.sender\<close> and \<open>block.timestamp\<close> are arguments.
\<close>

subsection \<open>Value types\<close>

type_synonym address = "160 word"
type_synonym uint256 = "256 word"
type_synonym bytes32 = "256 word"
type_synonym bytes = "8 word list"

text \<open>The library declares \<^verbatim>\<open>type euint32 is bytes32\<close>: a ciphertext handle.\<close>

type_synonym euint32 = bytes32

record EncryptedNFT =
  encryptedValue :: euint32
  encryptedWeight :: euint32

record DecryptionContext =
  batchId :: uint256
  stateHash :: bytes32
  processed :: bool

datatype event =
    OwnershipTransferred address address
  | ProviderAdded address
  | ProviderRemoved address
  | Paused address
  | Unpaused address
  | CooldownSecondsSet uint256 uint256
  | BatchOpened uint256
  | BatchClosed uint256
  | NFTSubmitted address uint256 uint256
  | PortfolioValuationRequested uint256 uint256 bytes32
  | PortfolioValuationCompleted uint256 uint256 uint256

text \<open>
  The ten custom errors of the contract, and the two reverts the compiler inserts:
  \<open>Panic\<close> for checked arithmetic (code 0x11) and \<open>AbiDecodeRevert\<close> for
  \<^verbatim>\<open>abi.decode\<close> on data that is too short.
\<close>

datatype error =
    NotOwner
  | NotProvider
  | PausedError
  | CooldownActive
  | InvalidBatch
  | ReplayAttempt
  | StateMismatch
  | InvalidProof
  | BatchNotClosed
  | FHENotInitialized
  | Panic
  | AbiDecodeRevert

subsection \<open>Storage\<close>

text \<open>
  A Solidity mapping is total: a key never written reads as the zero value of the value
  type. Each mapping is therefore a function, and the dynamic array of a batch is a list.
  \<open>events\<close> is the log of emitted events, oldest first.
\<close>

record ledger =
  owner :: address
  isProvider :: "address \<Rightarrow> bool"
  paused :: bool
  cooldownSeconds :: uint256
  lastSubmissionTime :: "address \<Rightarrow> uint256"
  lastDecryptionRequestTime :: "address \<Rightarrow> uint256"
  currentBatchId :: uint256
  isBatchClosed :: "uint256 \<Rightarrow> bool"
  portfolioEntries :: "uint256 \<Rightarrow> EncryptedNFT list"
  decryptionContexts :: "uint256 \<Rightarrow> DecryptionContext"
  events :: "event list"

subsection \<open>The imported library, as a parameter\<close>

text \<open>
  \<^verbatim>\<open>@fhevm/solidity\<close> is imported, not part of the repository. Its operations are the
  fields of a record that every function of the model takes: the homomorphic operations
  on handles, the well-formedness test, the serialisation, the signature check of the
  decryption oracle, and the commitment \<^verbatim>\<open>keccak256(abi.encode(cts, address(this)))\<close>
  together with the contract's own address. Each is a function of its arguments that
  returns; a revert inside the library is outside the model. The request id that
  \<^verbatim>\<open>FHE.requestDecryption\<close> returns is chosen by the library; it is an argument of
  \<open>requestPortfolioValuation\<close>.
\<close>

record fhe =
  FHE_asEuint32 :: "32 word \<Rightarrow> euint32"
  FHE_add :: "euint32 \<Rightarrow> euint32 \<Rightarrow> euint32"
  FHE_mul :: "euint32 \<Rightarrow> euint32 \<Rightarrow> euint32"
  FHE_isInitialized :: "euint32 \<Rightarrow> bool"
  FHE_toBytes32 :: "euint32 \<Rightarrow> bytes32"
  FHE_checkSignatures :: "uint256 \<Rightarrow> bytes \<Rightarrow> bytes \<Rightarrow> bool"
  keccak256_abi_encode :: "bytes32 list \<Rightarrow> address \<Rightarrow> bytes32"
  this_address :: address

subsection \<open>Checked arithmetic and decoding\<close>

definition checked_add :: "uint256 \<Rightarrow> uint256 \<Rightarrow> uint256 option" where
  "checked_add a b = (if unat a + unat b < 2 ^ 256 then Some (a + b) else None)"

text \<open>
  \<^verbatim>\<open>abi.decode(cleartexts, (uint256))\<close> reverts on fewer than 32 bytes and reads the
  first 32 bytes as a big-endian number otherwise.
\<close>

definition abi_decode_uint256 :: "bytes \<Rightarrow> uint256 option" where
  "abi_decode_uint256 bs =
     (if length bs < 32 then None
      else Some (foldl (\<lambda>acc b. acc * 256 + ucast b) 0 (take 32 bs)))"

subsection \<open>Modifiers\<close>

text \<open>A modifier guards the body it wraps: the body is the last argument.\<close>

definition onlyOwner :: "ledger \<Rightarrow> address \<Rightarrow> error + 'a \<Rightarrow> error + 'a" where
  "onlyOwner s sender body = (if sender \<noteq> owner s then Inl NotOwner else body)"

definition onlyProvider :: "ledger \<Rightarrow> address \<Rightarrow> error + 'a \<Rightarrow> error + 'a" where
  "onlyProvider s sender body = (if \<not> isProvider s sender then Inl NotProvider else body)"

definition whenNotPaused :: "ledger \<Rightarrow> error + 'a \<Rightarrow> error + 'a" where
  "whenNotPaused s body = (if paused s then Inl PausedError else body)"

definition respectCooldown ::
  "ledger \<Rightarrow> address \<Rightarrow> uint256 \<Rightarrow> error + 'a \<Rightarrow> error + 'a" where
  "respectCooldown s sender now body =
     (case checked_add (lastSubmissionTime s sender) (cooldownSeconds s) of
        None \<Rightarrow> Inl Panic
      | Some ready \<Rightarrow> if now < ready then Inl CooldownActive else body)"

subsection \<open>Constructor and owner functions\<close>

definition constructor :: "address \<Rightarrow> ledger" where
  "constructor sender =
     \<lparr> owner = sender,
       isProvider = (\<lambda>_. False),
       paused = False,
       cooldownSeconds = 60,
       lastSubmissionTime = (\<lambda>_. 0),
       lastDecryptionRequestTime = (\<lambda>_. 0),
       currentBatchId = 1,
       isBatchClosed = (\<lambda>_. False),
       portfolioEntries = (\<lambda>_. []),
       decryptionContexts = (\<lambda>_. \<lparr> batchId = 0, stateHash = 0, processed = False \<rparr>),
       events = [OwnershipTransferred 0 sender, BatchOpened 1] \<rparr>"

definition transferOwnership :: "ledger \<Rightarrow> address \<Rightarrow> address \<Rightarrow> error + ledger" where
  "transferOwnership s sender newOwner =
     onlyOwner s sender
       (Inr (s\<lparr> events := events s @ [OwnershipTransferred (owner s) newOwner],
                owner := newOwner \<rparr>))"

definition addProvider :: "ledger \<Rightarrow> address \<Rightarrow> address \<Rightarrow> error + ledger" where
  "addProvider s sender provider =
     onlyOwner s sender
       (Inr (s\<lparr> isProvider := (isProvider s)(provider := True),
                events := events s @ [ProviderAdded provider] \<rparr>))"

definition removeProvider :: "ledger \<Rightarrow> address \<Rightarrow> address \<Rightarrow> error + ledger" where
  "removeProvider s sender provider =
     onlyOwner s sender
       (Inr (s\<lparr> isProvider := (isProvider s)(provider := False),
                events := events s @ [ProviderRemoved provider] \<rparr>))"

definition setPaused :: "ledger \<Rightarrow> address \<Rightarrow> bool \<Rightarrow> error + ledger" where
  "setPaused s sender p =
     onlyOwner s sender
       (if p then Inr (s\<lparr> paused := True, events := events s @ [Paused sender] \<rparr>)
        else Inr (s\<lparr> paused := False, events := events s @ [Unpaused sender] \<rparr>))"

definition setCooldownSeconds :: "ledger \<Rightarrow> address \<Rightarrow> uint256 \<Rightarrow> error + ledger" where
  "setCooldownSeconds s sender newCooldownSeconds =
     onlyOwner s sender
       (Inr (s\<lparr> events := events s @ [CooldownSecondsSet (cooldownSeconds s) newCooldownSeconds],
                cooldownSeconds := newCooldownSeconds \<rparr>))"

subsection \<open>Batches\<close>

definition openNewBatch :: "ledger \<Rightarrow> address \<Rightarrow> error + ledger" where
  "openNewBatch s sender =
     onlyOwner s sender (whenNotPaused s
       (case checked_add (currentBatchId s) 1 of
          None \<Rightarrow> Inl Panic
        | Some n \<Rightarrow>
            Inr (s\<lparr> currentBatchId := n,
                    isBatchClosed := (isBatchClosed s)(n := False),
                    events := events s @ [BatchOpened n] \<rparr>)))"

definition closeCurrentBatch :: "ledger \<Rightarrow> address \<Rightarrow> error + ledger" where
  "closeCurrentBatch s sender =
     onlyOwner s sender (whenNotPaused s
       (if isBatchClosed s (currentBatchId s) then Inl InvalidBatch
        else Inr (s\<lparr> isBatchClosed := (isBatchClosed s)(currentBatchId s := True),
                     events := events s @ [BatchClosed (currentBatchId s)] \<rparr>)))"

subsection \<open>Submission\<close>

definition initIfNeeded :: "fhe \<Rightarrow> euint32 \<Rightarrow> error + 'a \<Rightarrow> error + 'a" where
  "initIfNeeded F v rest = (if \<not> FHE_isInitialized F v then Inl FHENotInitialized else rest)"

definition submitEncryptedNFT ::
  "fhe \<Rightarrow> ledger \<Rightarrow> address \<Rightarrow> uint256 \<Rightarrow> euint32 \<Rightarrow> euint32 \<Rightarrow> error + ledger" where
  "submitEncryptedNFT F s sender now v w =
     onlyProvider s sender (whenNotPaused s (respectCooldown s sender now
       (initIfNeeded F v (initIfNeeded F w
         (if isBatchClosed s (currentBatchId s) then Inl BatchNotClosed
          else
            let cur = currentBatchId s;
                entries = portfolioEntries s cur @ [\<lparr> encryptedValue = v, encryptedWeight = w \<rparr>]
            in Inr (s\<lparr> portfolioEntries := (portfolioEntries s)(cur := entries),
                       lastSubmissionTime := (lastSubmissionTime s)(sender := now),
                       events := events s @ [NFTSubmitted sender cur (of_nat (length entries - 1))] \<rparr>))))))"

subsection \<open>Aggregation and commitment\<close>

text \<open>
  The two \<^verbatim>\<open>for\<close> loops. The one in \<open>requestPortfolioValuation\<close> runs to the cached
  \<^verbatim>\<open>numNFTs\<close>; the one in \<open>myCallback\<close> reads the array's length at every test. The
  index is a natural number: an array cannot hold \<open>2 ^ 256\<close> elements, so \<^verbatim>\<open>++i\<close>
  does not overflow.
\<close>

function requestLoop :: "fhe \<Rightarrow> EncryptedNFT list \<Rightarrow> nat \<Rightarrow> nat \<Rightarrow> euint32 \<Rightarrow> euint32" where
  "requestLoop F entries numNFTs i encryptedTotalValue =
     (if i < numNFTs then
        requestLoop F entries numNFTs (Suc i)
          (FHE_add F encryptedTotalValue
             (FHE_mul F (encryptedValue (entries ! i)) (encryptedWeight (entries ! i))))
      else encryptedTotalValue)"
  by pat_completeness auto
termination
  by (relation "measure (\<lambda>(F, entries, numNFTs, i, acc). numNFTs - i)") auto

function callbackLoop :: "fhe \<Rightarrow> EncryptedNFT list \<Rightarrow> nat \<Rightarrow> euint32 \<Rightarrow> euint32" where
  "callbackLoop F entries i currentEncryptedTotalValue =
     (if i < length entries then
        callbackLoop F entries (Suc i)
          (FHE_add F currentEncryptedTotalValue
             (FHE_mul F (encryptedValue (entries ! i)) (encryptedWeight (entries ! i))))
      else currentEncryptedTotalValue)"
  by pat_completeness auto
termination
  by (relation "measure (\<lambda>(F, entries, i, acc). length entries - i)") auto

declare requestLoop.simps [simp del]
declare callbackLoop.simps [simp del]

definition hashCiphertexts :: "fhe \<Rightarrow> bytes32 list \<Rightarrow> bytes32" where
  "hashCiphertexts F cts = keccak256_abi_encode F cts (this_address F)"

subsection \<open>The decryption round trip\<close>

definition requestPortfolioValuation ::
  "fhe \<Rightarrow> ledger \<Rightarrow> address \<Rightarrow> uint256 \<Rightarrow> uint256 \<Rightarrow> uint256 \<Rightarrow> error + ledger" where
  "requestPortfolioValuation F s sender now bId requestId =
     whenNotPaused s (respectCooldown s sender now
       (if \<not> isBatchClosed s bId then Inl InvalidBatch
        else if length (portfolioEntries s bId) = 0 then Inl InvalidBatch
        else
          let numNFTs = length (portfolioEntries s bId);
              encryptedTotalValue =
                requestLoop F (portfolioEntries s bId) numNFTs 0 (FHE_asEuint32 F 0);
              cts = [FHE_toBytes32 F encryptedTotalValue];
              h = hashCiphertexts F cts
          in Inr (s\<lparr> lastDecryptionRequestTime := (lastDecryptionRequestTime s)(sender := now),
                     decryptionContexts := (decryptionContexts s)
                       (requestId := \<lparr> batchId = bId, stateHash = h, processed = False \<rparr>),
                     events := events s @ [PortfolioValuationRequested requestId bId h] \<rparr>)))"

text \<open>
  \<open>myCallback\<close> is public and has no modifier. It receives \<open>msg.sender\<close> like every
  other function of the model; its body does not mention it.
\<close>

definition myCallback ::
  "fhe \<Rightarrow> ledger \<Rightarrow> address \<Rightarrow> uint256 \<Rightarrow> bytes \<Rightarrow> bytes \<Rightarrow> error + ledger" where
  "myCallback F s sender requestId cleartexts prf =
     (if processed (decryptionContexts s requestId) then Inl ReplayAttempt
      else
        let ctx = decryptionContexts s requestId;
            bId = batchId ctx
        in if length (portfolioEntries s bId) = 0 then Inl InvalidBatch
           else
             let currentEncryptedTotalValue =
                   callbackLoop F (portfolioEntries s bId) 0 (FHE_asEuint32 F 0);
                 currentCts = [FHE_toBytes32 F currentEncryptedTotalValue];
                 currentHash = hashCiphertexts F currentCts
             in if currentHash \<noteq> stateHash ctx then Inl StateMismatch
                else if \<not> FHE_checkSignatures F requestId cleartexts prf then Inl InvalidProof
                else
                  (case abi_decode_uint256 cleartexts of
                     None \<Rightarrow> Inl AbiDecodeRevert
                   | Some totalValue \<Rightarrow>
                       Inr (s\<lparr> decryptionContexts := (decryptionContexts s)
                                 (requestId := (decryptionContexts s requestId)\<lparr> processed := True \<rparr>),
                               events := events s @
                                 [PortfolioValuationCompleted requestId bId totalValue] \<rparr>)))"

subsection \<open>Transactions\<close>

text \<open>
  One external call, with the value the library returns where it returns one. A
  transaction is a call with its sender and block timestamp; a transaction that reverts
  leaves the storage as it was.
\<close>

datatype call =
    TransferOwnership address
  | AddProvider address
  | RemoveProvider address
  | SetPaused bool
  | SetCooldownSeconds uint256
  | OpenNewBatch
  | CloseCurrentBatch
  | SubmitEncryptedNFT euint32 euint32
  | RequestPortfolioValuation uint256 uint256
  | MyCallback uint256 bytes bytes

fun dispatch :: "fhe \<Rightarrow> ledger \<Rightarrow> address \<Rightarrow> uint256 \<Rightarrow> call \<Rightarrow> error + ledger" where
  "dispatch F s sender now (TransferOwnership newOwner) = transferOwnership s sender newOwner"
| "dispatch F s sender now (AddProvider provider) = addProvider s sender provider"
| "dispatch F s sender now (RemoveProvider provider) = removeProvider s sender provider"
| "dispatch F s sender now (SetPaused p) = setPaused s sender p"
| "dispatch F s sender now (SetCooldownSeconds c) = setCooldownSeconds s sender c"
| "dispatch F s sender now OpenNewBatch = openNewBatch s sender"
| "dispatch F s sender now CloseCurrentBatch = closeCurrentBatch s sender"
| "dispatch F s sender now (SubmitEncryptedNFT v w) = submitEncryptedNFT F s sender now v w"
| "dispatch F s sender now (RequestPortfolioValuation bId requestId) =
     requestPortfolioValuation F s sender now bId requestId"
| "dispatch F s sender now (MyCallback requestId cleartexts prf) =
     myCallback F s sender requestId cleartexts prf"

type_synonym tx = "address \<times> uint256 \<times> call"

fun exec :: "fhe \<Rightarrow> ledger \<Rightarrow> tx \<Rightarrow> ledger" where
  "exec F s (sender, now, c) = (case dispatch F s sender now c of Inl e \<Rightarrow> s | Inr s' \<Rightarrow> s')"

declare exec.simps [simp del]

definition run :: "fhe \<Rightarrow> ledger \<Rightarrow> tx list \<Rightarrow> ledger" where
  "run F s txs = foldl (exec F) s txs"

definition reachable :: "fhe \<Rightarrow> address \<Rightarrow> tx list \<Rightarrow> ledger" where
  "reachable F deployer txs = run F (constructor deployer) txs"

subsection \<open>A transparent instance of the library\<close>

text \<open>
  For running the model on concrete inputs: handles are the plaintexts themselves, the
  homomorphic operations are the arithmetic of \<open>256 word\<close>, a handle is initialised
  when it is not zero, a proof verifies when it is the single byte 1, and the commitment
  is a polynomial of the serialised ciphertexts seeded with the address.
\<close>

definition mock_fhe :: fhe where
  "mock_fhe =
     \<lparr> FHE_asEuint32 = (\<lambda>n. ucast n),
       FHE_add = (\<lambda>a b. a + b),
       FHE_mul = (\<lambda>a b. a * b),
       FHE_isInitialized = (\<lambda>h. h \<noteq> 0),
       FHE_toBytes32 = (\<lambda>h. h),
       FHE_checkSignatures = (\<lambda>requestId cleartexts prf. prf = [1]),
       keccak256_abi_encode = (\<lambda>cts a. foldl (\<lambda>acc c. 31 * acc + c) (ucast a + 7) cts),
       this_address = 256 \<rparr>"

subsection \<open>The aggregate as the specification words it\<close>

text \<open>
  The specification's fold: each entry's value is multiplied homomorphically by its
  weight and the products are added, in submission order, onto a homomorphic zero. The
  two loops above are compared with it.
\<close>

definition spec_aggregate :: "fhe \<Rightarrow> EncryptedNFT list \<Rightarrow> euint32" where
  "spec_aggregate F entries =
     foldl (\<lambda>total e. FHE_add F total (FHE_mul F (encryptedValue e) (encryptedWeight e)))
       (FHE_asEuint32 F 0) entries"

subsection \<open>Traces\<close>

text \<open>
  \<open>registers requestId t\<close>: the transaction is a valuation request to which the library
  answers with \<open>requestId\<close>. The library hands out every request id once, so a trace
  registers an id at most once.
\<close>

fun registers :: "uint256 \<Rightarrow> tx \<Rightarrow> bool" where
  "registers requestId (sender, now, RequestPortfolioValuation bId r) = (r = requestId)"
| "registers requestId (sender, now, c) = False"

subsection \<open>Concrete ledgers and traces\<close>

text \<open>
  Address 1 deploys, makes address 2 a provider, the provider submits the entry
  \<open>(3, 2)\<close> at time 1000 and the owner closes batch 1.
\<close>

definition closed_batch_ledger :: ledger where
  "closed_batch_ledger =
     reachable mock_fhe 1
       [(1, 100, AddProvider 2), (2, 1000, SubmitEncryptedNFT 3 2), (1, 1001, CloseCurrentBatch)]"

text \<open>Then address 3 requests the valuation of batch 1 at time 1010 and receives id 0.\<close>

definition requested_ledger :: ledger where
  "requested_ledger = exec mock_fhe closed_batch_ledger (3, 1010, RequestPortfolioValuation 1 0)"

text \<open>A fresh deployment in which the owner pauses the contract.\<close>

definition paused_ledger :: ledger where
  "paused_ledger = reachable mock_fhe 1 [(1, 10, SetPaused True)]"

text \<open>The owner opens batch 2 while batch 1 is open, then pauses.\<close>

definition bypassed_paused_ledger :: ledger where
  "bypassed_paused_ledger = reachable mock_fhe 1 [(1, 10, OpenNewBatch), (1, 11, SetPaused True)]"

text \<open>The 32-byte big-endian encoding of 6.\<close>

definition six_encoded :: bytes where
  "six_encoded =
     [0, 0, 0, 0, 0, 0, 0, 0, 0, 0, 0, 0, 0, 0, 0, 0,
      0, 0, 0, 0, 0, 0, 0, 0, 0, 0, 0, 0, 0, 0, 0, 6]"

text \<open>
  The owner (address 1) opens batch 2 and closes it; later the owner opens batch 3.
\<close>

definition lifecycle_txs :: "tx list" where
  "lifecycle_txs = [(1, 10, OpenNewBatch), (1, 11, CloseCurrentBatch)]"

definition lifecycle_later :: "tx list" where
  "lifecycle_later = [(1, 12, OpenNewBatch)]"



text \<open>After the finalize: the owner opens a batch and address 3 requests again, with id 5.\<close>

definition replay_txs :: "tx list" where
  "replay_txs = [(1, 2000, OpenNewBatch), (3, 2001, RequestPortfolioValuation 1 5)]"

text \<open>A provider submits into batch 1 and the owner opens batch 2; nobody requests a valuation.\<close>

definition unrequested_txs :: "tx list" where
  "unrequested_txs =
     [(1, 100, AddProvider 2), (2, 1000, SubmitEncryptedNFT 3 2), (1, 1001, OpenNewBatch)]"

text \<open>After batch 1 is closed the owner opens batch 2.\<close>

definition reopened_ledger :: ledger where
  "reopened_ledger = exec mock_fhe closed_batch_ledger (1, 1500, OpenNewBatch)"

text \<open>
  A batch of two entries, \<open>(3, 2)\<close> and \<open>(5, 1)\<close>, closed by the owner; address 3
  requests its valuation at time 1200 and receives id 0. Between the request and the
  finalize the owner opens batch 2, the provider submits into it and address 3 requests
  batch 1 again, with id 5. \<open>divergent_ledger\<close> is the ledger at finalize time with a
  different entry list put in place of batch 1, and \<open>eleven_encoded\<close> is the 32-byte
  encoding of 11.
\<close>

definition two_entry_ledger :: ledger where
  "two_entry_ledger =
     reachable mock_fhe 1
       [(1, 100, AddProvider 2), (2, 1000, SubmitEncryptedNFT 3 2),
        (2, 1100, SubmitEncryptedNFT 5 1), (1, 1101, CloseCurrentBatch)]"

definition two_entry_requested :: ledger where
  "two_entry_requested =
     exec mock_fhe two_entry_ledger (3, 1200, RequestPortfolioValuation 1 0)"

definition between_txs :: "tx list" where
  "between_txs =
     [(1, 1300, OpenNewBatch), (2, 1400, SubmitEncryptedNFT 7 7),
      (3, 1500, RequestPortfolioValuation 1 5)]"

definition two_entry_later :: ledger where
  "two_entry_later = run mock_fhe two_entry_requested between_txs"

definition divergent_ledger :: ledger where
  "divergent_ledger =
     two_entry_later\<lparr> portfolioEntries := (portfolioEntries two_entry_later)
       (1 := [\<lparr> encryptedValue = 3, encryptedWeight = 2 \<rparr>]) \<rparr>"

definition eleven_encoded :: bytes where
  "eleven_encoded =
     [0, 0, 0, 0, 0, 0, 0, 0, 0, 0, 0, 0, 0, 0, 0, 0,
      0, 0, 0, 0, 0, 0, 0, 0, 0, 0, 0, 0, 0, 0, 0, 11]"

text \<open>The owner opens batch 2, closes it and then pauses the contract.\<close>

definition lifecycle_paused_txs :: "tx list" where
  "lifecycle_paused_txs =
     [(1, 10, OpenNewBatch), (1, 11, CloseCurrentBatch), (1, 12, SetPaused True)]"




subsection \<open>Invariants\<close>

text \<open>Only ids up to the current one have ever been closed.\<close>

definition closed_bounded :: "ledger \<Rightarrow> bool" where
  "closed_bounded s \<longleftrightarrow> (\<forall>b. isBatchClosed s b \<longrightarrow> b \<le> currentBatchId s)"

text \<open>
  The invariant kept for a request id that no transaction has registered: batch ids start
  at 1, so batch 0 holds no entry, and the context of the id is still the default value of
  the mapping.
\<close>

definition unregistered :: "uint256 \<Rightarrow> ledger \<Rightarrow> bool" where
  "unregistered requestId s \<longleftrightarrow>
     currentBatchId s \<noteq> 0 \<and> portfolioEntries s 0 = [] \<and>
     decryptionContexts s requestId = \<lparr> batchId = 0, stateHash = 0, processed = False \<rparr>"

section \<open>Properties\<close>

subsection \<open>Unfolding and evaluation\<close>

lemmas body_defs = onlyOwner_def onlyProvider_def whenNotPaused_def respectCooldown_def
  transferOwnership_def addProvider_def removeProvider_def setPaused_def
  setCooldownSeconds_def openNewBatch_def closeCurrentBatch_def initIfNeeded_def
  submitEncryptedNFT_def requestPortfolioValuation_def myCallback_def

lemmas fn_defs = body_defs checked_add_def hashCiphertexts_def

lemmas eval_defs = reachable_def run_def exec.simps constructor_def fn_defs mock_fhe_def
  requestLoop.simps callbackLoop.simps abi_decode_uint256_def
  closed_batch_ledger_def requested_ledger_def paused_ledger_def bypassed_paused_ledger_def
  six_encoded_def

subsection \<open>The loops are folds\<close>

lemma requestLoop_take_drop:
  "i \<le> n \<Longrightarrow> n \<le> length es \<Longrightarrow>
   requestLoop F es n i acc =
     foldl (\<lambda>total e. FHE_add F total (FHE_mul F (encryptedValue e) (encryptedWeight e)))
       acc (take (n - i) (drop i es))"
proof (induction F es n i acc rule: requestLoop.induct)
  case (1 F entries numNFTs i acc)
  show ?case
  proof (cases "i < numNFTs")
    case True
    have "i < length entries" using True 1(3) by simp
    then have "drop i entries = entries ! i # drop (Suc i) entries"
      by (simp add: Cons_nth_drop_Suc)
    moreover have "numNFTs - i = Suc (numNFTs - Suc i)" using True by simp
    ultimately have d: "take (numNFTs - i) (drop i entries) =
        entries ! i # take (numNFTs - Suc i) (drop (Suc i) entries)"
      by simp
    show ?thesis using True 1 d by (subst requestLoop.simps) simp
  next
    case False
    then show ?thesis using 1 by (subst requestLoop.simps) simp
  qed
qed

lemma callbackLoop_drop:
  "callbackLoop F es i acc =
     foldl (\<lambda>total e. FHE_add F total (FHE_mul F (encryptedValue e) (encryptedWeight e)))
       acc (drop i es)"
proof (induction F es i acc rule: callbackLoop.induct)
  case (1 F entries i acc)
  show ?case
  proof (cases "i < length entries")
    case True
    then have d: "drop i entries = entries ! i # drop (Suc i) entries"
      by (simp add: Cons_nth_drop_Suc)
    show ?thesis using True 1 d by (subst callbackLoop.simps) simp
  next
    case False
    then show ?thesis by (subst callbackLoop.simps) simp
  qed
qed

lemma requestLoop_spec:
  "requestLoop F es (length es) 0 (FHE_asEuint32 F 0) = spec_aggregate F es"
  using requestLoop_take_drop [of 0 "length es" es F "FHE_asEuint32 F 0"]
  by (simp add: spec_aggregate_def)

lemma callbackLoop_spec:
  "callbackLoop F es 0 (FHE_asEuint32 F 0) = spec_aggregate F es"
  by (simp add: callbackLoop_drop spec_aggregate_def)

lemma request_registers_context:
  assumes "requestPortfolioValuation F s sender now bId requestId = Inr s1"
  shows "decryptionContexts s1 requestId =
      \<lparr> batchId = bId,
        stateHash = hashCiphertexts F [FHE_toBytes32 F (spec_aggregate F (portfolioEntries s bId))],
        processed = False \<rparr>"
    and "isBatchClosed s bId" and "portfolioEntries s bId \<noteq> []"
  using assms
  by (auto simp: requestPortfolioValuation_def whenNotPaused_def respectCooldown_def Let_def
      requestLoop_spec split: if_splits option.splits)

subsection \<open>What one call changes\<close>

lemma checked_add_one:
  assumes "checked_add n 1 = Some m"
  shows "m = n + 1" and "n < m" and "m \<noteq> 0"
proof -
  from assms have b: "unat n + unat (1 :: uint256) < 2 ^ 256" and m: "m = n + 1"
    by (auto simp: checked_add_def split: if_splits)
  from b have "unat n + unat (1 :: uint256) < 2 ^ LENGTH(256)" by simp
  then have "unat (n + 1) = unat n + unat (1 :: uint256)"
    by (simp only: unat_add_lem)
  then have u: "unat m = unat n + 1" using m by simp
  show "m = n + 1" by (rule m)
  show "n < m" using u by (simp add: word_less_nat_alt)
  show "m \<noteq> 0" using u by (auto simp: unat_eq_0 [symmetric] simp del: unat_eq_0)
qed

lemma dispatch_currentBatchId:
  assumes "dispatch F s sender now c = Inr s'"
  shows "currentBatchId s \<le> currentBatchId s'"
    and "c \<noteq> OpenNewBatch \<Longrightarrow> currentBatchId s' = currentBatchId s"
    and "c = OpenNewBatch \<Longrightarrow> currentBatchId s < currentBatchId s'"
  using assms
  by (cases c; auto simp: body_defs Let_def dest: checked_add_one(2)
      split: if_splits option.splits)+

lemma dispatch_isBatchClosed:
  assumes "dispatch F s sender now c = Inr s'"
  shows "isBatchClosed s' =
     (if c = OpenNewBatch then (isBatchClosed s)(currentBatchId s' := False)
      else if c = CloseCurrentBatch then (isBatchClosed s)(currentBatchId s := True)
      else isBatchClosed s)"
  using assms
  by (cases c; auto simp: body_defs Let_def split: if_splits option.splits)

lemma dispatch_portfolioEntries:
  assumes "dispatch F s sender now c = Inr s'"
    and "portfolioEntries s' b \<noteq> portfolioEntries s b"
  shows "b = currentBatchId s" and "\<not> isBatchClosed s b"
    and "\<exists>v w. c = SubmitEncryptedNFT v w \<and> portfolioEntries s' b =
           portfolioEntries s b @ [\<lparr> encryptedValue = v, encryptedWeight = w \<rparr>]"
  using assms
  by (cases c; auto simp: body_defs Let_def split: if_splits option.splits)+

lemma dispatch_decryptionContexts:
  assumes "dispatch F s sender now c = Inr s'"
    and "decryptionContexts s' r \<noteq> decryptionContexts s r"
  shows "(\<exists>bId. c = RequestPortfolioValuation bId r) \<or>
         (\<exists>cleartexts prf. c = MyCallback r cleartexts prf)"
  using assms
  by (cases c; auto simp: body_defs Let_def split: if_splits option.splits)

lemma exec_cases:
  obtains (reverted) "exec F s (sender, now, c) = s" "isl (dispatch F s sender now c)"
  | (applied) s' where "dispatch F s sender now c = Inr s'" "exec F s (sender, now, c) = s'"
  by (cases "dispatch F s sender now c") (auto simp: exec.simps)

lemma exec_reverted: "isl (dispatch F s sender now c) \<Longrightarrow> exec F s (sender, now, c) = s"
  by (cases "dispatch F s sender now c") (auto simp: exec.simps)

lemma run_Nil: "run F s [] = s"
  by (simp add: run_def)

lemma run_Cons: "run F s (t # txs) = run F (exec F s t) txs"
  by (simp add: run_def)

lemma run_append: "run F s (txs @ later) = run F (run F s txs) later"
  by (simp add: run_def)

lemma run_induct [consumes 1, case_names step]:
  assumes "P s" and "\<And>s t. P s \<Longrightarrow> P (exec F s t)"
  shows "P (run F s txs)"
  using assms(1)
proof (induction txs arbitrary: s)
  case Nil
  then show ?case by (simp add: run_Nil)
next
  case (Cons t txs)
  then show ?case by (simp add: run_Cons assms(2))
qed

subsection \<open>Batch ids and closed flags\<close>

lemma exec_currentBatchId: "currentBatchId s \<le> currentBatchId (exec F s t)"
proof (cases t)
  case (fields sender now c)
  show ?thesis unfolding fields
    by (cases rule: exec_cases [of F s sender now c]) (auto dest: dispatch_currentBatchId(1))
qed

lemma run_currentBatchId: "currentBatchId s \<le> currentBatchId (run F s txs)"
proof (induction txs arbitrary: s)
  case Nil
  then show ?case by (simp add: run_Nil)
next
  case (Cons t txs)
  have "currentBatchId s \<le> currentBatchId (exec F s t)" by (rule exec_currentBatchId)
  also have "\<dots> \<le> currentBatchId (run F (exec F s t) txs)" by (rule Cons.IH)
  finally show ?case by (simp add: run_Cons)
qed

lemma exec_closed_bounded:
  assumes "closed_bounded s"
  shows "closed_bounded (exec F s t)"
proof (cases t)
  case (fields sender now c)
  show ?thesis
  proof (cases rule: exec_cases [of F s sender now c])
    case reverted
    then show ?thesis using assms by (simp add: fields)
  next
    case (applied s')
    have le: "currentBatchId s \<le> currentBatchId s'"
      by (rule dispatch_currentBatchId(1) [OF applied(1)])
    have "b \<le> currentBatchId s'" if "isBatchClosed s' b" for b
    proof (cases "isBatchClosed s b")
      case True
      then have "b \<le> currentBatchId s" using assms by (simp add: closed_bounded_def)
      then show ?thesis using le by simp
    next
      case False
      then have "b = currentBatchId s" using that dispatch_isBatchClosed [OF applied(1)]
        by (auto split: if_splits)
      then show ?thesis using le by simp
    qed
    then show ?thesis by (simp add: fields applied(2) closed_bounded_def)
  qed
qed

lemma constructor_closed_bounded: "closed_bounded (constructor deployer)"
  by (simp add: closed_bounded_def constructor_def)

lemma run_closed_bounded: "closed_bounded s \<Longrightarrow> closed_bounded (run F s txs)"
  by (rule run_induct [where P = closed_bounded]) (auto intro: exec_closed_bounded)

lemma reachable_closed_bounded: "closed_bounded (reachable F deployer txs)"
  unfolding reachable_def by (rule run_closed_bounded [OF constructor_closed_bounded])

lemma exec_closed_persists:
  assumes "closed_bounded s" and "isBatchClosed s b"
  shows "isBatchClosed (exec F s t) b"
proof (cases t)
  case (fields sender now c)
  show ?thesis
  proof (cases rule: exec_cases [of F s sender now c])
    case reverted
    then show ?thesis using assms by (simp add: fields)
  next
    case (applied s')
    have "b \<noteq> currentBatchId s'" if "c = OpenNewBatch"
    proof -
      have "currentBatchId s < currentBatchId s'"
        by (rule dispatch_currentBatchId(3) [OF applied(1) that])
      moreover have "b \<le> currentBatchId s" using assms by (simp add: closed_bounded_def)
      ultimately show ?thesis by auto
    qed
    then show ?thesis using assms(2) dispatch_isBatchClosed [OF applied(1)]
      by (auto simp: fields applied(2))
  qed
qed

lemma run_closed_persists:
  assumes "closed_bounded s" and "isBatchClosed s b"
  shows "isBatchClosed (run F s txs) b"
proof -
  have "closed_bounded (run F s txs) \<and> isBatchClosed (run F s txs) b"
    by (rule run_induct [where P = "\<lambda>s. closed_bounded s \<and> isBatchClosed s b"])
       (auto simp: assms intro: exec_closed_bounded exec_closed_persists)
  then show ?thesis by simp
qed

lemma exec_newly_closed:
  assumes "\<not> isBatchClosed s b" and "isBatchClosed (exec F s (sender, now, c)) b"
  shows "c = CloseCurrentBatch \<and> b = currentBatchId s \<and> sender = owner s \<and> \<not> paused s"
proof (cases rule: exec_cases [of F s sender now c])
  case reverted
  then show ?thesis using assms by simp
next
  case (applied s')
  from assms dispatch_isBatchClosed [OF applied(1)]
  have "c = CloseCurrentBatch \<and> b = currentBatchId s"
    by (auto simp: applied(2) split: if_splits)
  moreover from this applied(1) have "sender = owner s \<and> \<not> paused s"
    by (auto simp: body_defs split: if_splits)
  ultimately show ?thesis by simp
qed

subsection \<open>The concrete ledgers, field by field\<close>

lemma closed_batch_ledger_fields:
  "owner closed_batch_ledger = 1"
  "paused closed_batch_ledger = False"
  "cooldownSeconds closed_batch_ledger = 60"
  "lastSubmissionTime closed_batch_ledger 2 = 1000"
  "lastSubmissionTime closed_batch_ledger 3 = 0"
  "lastDecryptionRequestTime closed_batch_ledger 2 = 0"
  "currentBatchId closed_batch_ledger = 1"
  "isBatchClosed closed_batch_ledger 1"
  "portfolioEntries closed_batch_ledger 1 = [\<lparr> encryptedValue = 3, encryptedWeight = 2 \<rparr>]"
  by (simp_all add: eval_defs)

lemma request_on_closed_batch:
  "\<not> isl (requestPortfolioValuation mock_fhe closed_batch_ledger 3 1010 1 0)"
  by (simp add: fn_defs closed_batch_ledger_fields mock_fhe_def requestLoop.simps)

lemma requested_ledger_eq:
  "requestPortfolioValuation mock_fhe closed_batch_ledger 3 1010 1 0 = Inr requested_ledger"
proof -
  obtain s1 where s1: "requestPortfolioValuation mock_fhe closed_batch_ledger 3 1010 1 0 = Inr s1"
    using request_on_closed_batch
    by (cases "requestPortfolioValuation mock_fhe closed_batch_ledger 3 1010 1 0") auto
  then show ?thesis by (simp add: requested_ledger_def exec.simps)
qed

lemma requested_ledger_fields:
  "paused requested_ledger = False"
  "cooldownSeconds requested_ledger = 60"
  "lastSubmissionTime requested_ledger 3 = 0"
  "lastSubmissionTime requested_ledger 2 = 1000"
  "lastDecryptionRequestTime requested_ledger 3 = 1010"
  "lastDecryptionRequestTime requested_ledger 2 = 0"
  "isBatchClosed requested_ledger 1"
  "portfolioEntries requested_ledger 1 = [\<lparr> encryptedValue = 3, encryptedWeight = 2 \<rparr>]"
  "decryptionContexts requested_ledger 0 = \<lparr> batchId = 1, stateHash = 8159, processed = False \<rparr>"
  by (simp_all add: requested_ledger_def exec.simps fn_defs closed_batch_ledger_fields
      mock_fhe_def requestLoop.simps)

subsection \<open>The commitment is recomputed identically\<close>

lemma two_entry_ledger_fields:
  "owner two_entry_ledger = 1"
  "isProvider two_entry_ledger 2"
  "paused two_entry_ledger = False"
  "cooldownSeconds two_entry_ledger = 60"
  "lastSubmissionTime two_entry_ledger 2 = 1100"
  "lastSubmissionTime two_entry_ledger 3 = 0"
  "currentBatchId two_entry_ledger = 1"
  "isBatchClosed two_entry_ledger 1"
  "portfolioEntries two_entry_ledger 1 =
     [\<lparr> encryptedValue = 3, encryptedWeight = 2 \<rparr>, \<lparr> encryptedValue = 5, encryptedWeight = 1 \<rparr>]"
  "portfolioEntries two_entry_ledger 2 = []"
  by (simp_all add: two_entry_ledger_def eval_defs)

lemma two_entry_request:
  "\<not> isl (requestPortfolioValuation mock_fhe two_entry_ledger 3 1200 1 0)"
  by (simp add: fn_defs two_entry_ledger_fields mock_fhe_def requestLoop.simps)

lemma two_entry_requested_eq:
  "requestPortfolioValuation mock_fhe two_entry_ledger 3 1200 1 0 = Inr two_entry_requested"
proof -
  obtain s1 where "requestPortfolioValuation mock_fhe two_entry_ledger 3 1200 1 0 = Inr s1"
    using two_entry_request
    by (cases "requestPortfolioValuation mock_fhe two_entry_ledger 3 1200 1 0") auto
  then show ?thesis by (simp add: two_entry_requested_def exec.simps)
qed

lemma two_entry_requested_fields:
  "owner two_entry_requested = 1"
  "isProvider two_entry_requested 2"
  "paused two_entry_requested = False"
  "cooldownSeconds two_entry_requested = 60"
  "lastSubmissionTime two_entry_requested 2 = 1100"
  "lastSubmissionTime two_entry_requested 3 = 0"
  "currentBatchId two_entry_requested = 1"
  "isBatchClosed two_entry_requested 1"
  "portfolioEntries two_entry_requested 1 =
     [\<lparr> encryptedValue = 3, encryptedWeight = 2 \<rparr>, \<lparr> encryptedValue = 5, encryptedWeight = 1 \<rparr>]"
  "portfolioEntries two_entry_requested 2 = []"
  "decryptionContexts two_entry_requested 0 = \<lparr> batchId = 1, stateHash = 8164, processed = False \<rparr>"
  by (simp_all add: two_entry_requested_def exec.simps fn_defs two_entry_ledger_fields
      mock_fhe_def requestLoop.simps)

lemma two_entry_later_fields:
  "currentBatchId two_entry_later = 2"
  "portfolioEntries two_entry_later 1 =
     [\<lparr> encryptedValue = 3, encryptedWeight = 2 \<rparr>, \<lparr> encryptedValue = 5, encryptedWeight = 1 \<rparr>]"
  "portfolioEntries two_entry_later 2 = [\<lparr> encryptedValue = 7, encryptedWeight = 7 \<rparr>]"
  "decryptionContexts two_entry_later 0 = \<lparr> batchId = 1, stateHash = 8164, processed = False \<rparr>"
  "decryptionContexts two_entry_later 5 = \<lparr> batchId = 1, stateHash = 8164, processed = False \<rparr>"
  by (simp_all add: two_entry_later_def between_txs_def run_def exec.simps fn_defs
      two_entry_requested_fields mock_fhe_def requestLoop.simps)

lemma eleven_decoded: "abi_decode_uint256 eleven_encoded = Some 11"
  by (simp add: abi_decode_uint256_def eleven_encoded_def)

text \<open>
  Claim C2. The loop of \<open>requestPortfolioValuation\<close> and the loop of \<open>myCallback\<close>
  both compute the specification's fold (multiply each entry's value by its weight, add
  the products in submission order onto the homomorphic zero). Hence, when a request on
  ledger \<open>s\<close> succeeded and \<open>myCallback\<close> later runs on a ledger \<open>s2\<close> that holds the
  same entry list for the batch and the context the request stored, the commitment
  recomputed at finalize is the stored \<open>stateHash\<close> and the call does not abort with
  \<open>StateMismatch\<close>: it passes the replay, empty-batch and state-hash checks, so that it
  aborts only on a proof that does not verify or on cleartexts that do not decode, and
  otherwise marks the context processed and emits the completion event. On a ledger
  \<open>s3\<close> that holds the same context and, for the batch, an entry list with another
  commitment, the call aborts with \<open>StateMismatch\<close>.
\<close>

theorem aggregate_recomputed_at_finalize:
  assumes req: "requestPortfolioValuation F s sender now bId requestId = Inr s1"
    and same: "portfolioEntries s2 bId = portfolioEntries s bId"
    and ctx: "decryptionContexts s2 requestId = decryptionContexts s1 requestId"
  shows "requestLoop F (portfolioEntries s bId) (length (portfolioEntries s bId)) 0 (FHE_asEuint32 F 0)
           = spec_aggregate F (portfolioEntries s bId)
       \<and> callbackLoop F (portfolioEntries s2 bId) 0 (FHE_asEuint32 F 0)
           = spec_aggregate F (portfolioEntries s bId)
       \<and> hashCiphertexts F
            [FHE_toBytes32 F (callbackLoop F (portfolioEntries s2 bId) 0 (FHE_asEuint32 F 0))]
           = stateHash (decryptionContexts s2 requestId)
       \<and> myCallback F s2 caller requestId cleartexts prf \<noteq> Inl StateMismatch
       \<and> myCallback F s2 caller requestId cleartexts prf =
           (if \<not> FHE_checkSignatures F requestId cleartexts prf then Inl InvalidProof
            else case abi_decode_uint256 cleartexts of
                   None \<Rightarrow> Inl AbiDecodeRevert
                 | Some totalValue \<Rightarrow>
                     Inr (s2\<lparr> decryptionContexts := (decryptionContexts s2)
                               (requestId := (decryptionContexts s2 requestId)\<lparr> processed := True \<rparr>),
                             events := events s2 @
                               [PortfolioValuationCompleted requestId bId totalValue] \<rparr>))
       \<and> (decryptionContexts s3 requestId = decryptionContexts s1 requestId
            \<and> portfolioEntries s3 bId \<noteq> []
            \<and> hashCiphertexts F [FHE_toBytes32 F (spec_aggregate F (portfolioEntries s3 bId))]
                \<noteq> hashCiphertexts F [FHE_toBytes32 F (spec_aggregate F (portfolioEntries s bId))]
            \<longrightarrow> myCallback F s3 caller requestId cleartexts prf = Inl StateMismatch)"
proof -
  note c1 = request_registers_context [OF req]
  have h: "hashCiphertexts F
            [FHE_toBytes32 F (callbackLoop F (portfolioEntries s2 bId) 0 (FHE_asEuint32 F 0))]
           = stateHash (decryptionContexts s2 requestId)"
    by (simp add: ctx c1(1) callbackLoop_spec same)
  have b: "batchId (decryptionContexts s2 requestId) = bId"
    and p: "\<not> processed (decryptionContexts s2 requestId)"
    by (simp_all add: ctx c1(1))
  have ne: "portfolioEntries s2 bId \<noteq> []"
    using c1(3) by (simp add: same)
  have exact: "myCallback F s2 caller requestId cleartexts prf =
           (if \<not> FHE_checkSignatures F requestId cleartexts prf then Inl InvalidProof
            else case abi_decode_uint256 cleartexts of
                   None \<Rightarrow> Inl AbiDecodeRevert
                 | Some totalValue \<Rightarrow>
                     Inr (s2\<lparr> decryptionContexts := (decryptionContexts s2)
                               (requestId := (decryptionContexts s2 requestId)\<lparr> processed := True \<rparr>),
                             events := events s2 @
                               [PortfolioValuationCompleted requestId bId totalValue] \<rparr>))"
    using h b p ne by (simp add: myCallback_def Let_def split: option.splits)
  have nm: "myCallback F s2 caller requestId cleartexts prf \<noteq> Inl StateMismatch"
    unfolding exact by (simp split: option.splits)
  have mism: "myCallback F s3 caller requestId cleartexts prf = Inl StateMismatch"
    if "decryptionContexts s3 requestId = decryptionContexts s1 requestId
            \<and> portfolioEntries s3 bId \<noteq> []
            \<and> hashCiphertexts F [FHE_toBytes32 F (spec_aggregate F (portfolioEntries s3 bId))]
                \<noteq> hashCiphertexts F [FHE_toBytes32 F (spec_aggregate F (portfolioEntries s bId))]"
    using that by (simp add: myCallback_def Let_def c1(1) callbackLoop_spec)
  have l1: "requestLoop F (portfolioEntries s bId) (length (portfolioEntries s bId)) 0 (FHE_asEuint32 F 0)
           = spec_aggregate F (portfolioEntries s bId)"
    by (rule requestLoop_spec)
  have l2: "callbackLoop F (portfolioEntries s2 bId) 0 (FHE_asEuint32 F 0)
           = spec_aggregate F (portfolioEntries s bId)"
    by (simp add: callbackLoop_spec same)
  from l1 l2 h nm exact mism show ?thesis by blast
qed

theorem aggregate_recomputed_at_finalize_witness:
  "requestPortfolioValuation mock_fhe two_entry_ledger 3 1200 1 0 = Inr two_entry_requested
   \<and> portfolioEntries two_entry_later 1 = portfolioEntries two_entry_ledger 1
   \<and> decryptionContexts two_entry_later 0 = decryptionContexts two_entry_requested 0
   \<and> currentBatchId two_entry_ledger = 1
   \<and> currentBatchId two_entry_later = 2
   \<and> spec_aggregate mock_fhe (portfolioEntries two_entry_ledger 1) = 11
   \<and> stateHash (decryptionContexts two_entry_later 0) = 8164
   \<and> \<not> isl (myCallback mock_fhe two_entry_later 9 0 eleven_encoded [1])
   \<and> processed (decryptionContexts
        (projr (myCallback mock_fhe two_entry_later 9 0 eleven_encoded [1])) 0)
   \<and> last (events (projr (myCallback mock_fhe two_entry_later 9 0 eleven_encoded [1])))
       = PortfolioValuationCompleted 0 1 11
   \<and> myCallback mock_fhe two_entry_later 9 0 eleven_encoded [2] = Inl InvalidProof
   \<and> myCallback mock_fhe two_entry_later 9 0 [] [1] = Inl AbiDecodeRevert
   \<and> decryptionContexts divergent_ledger 0 = decryptionContexts two_entry_requested 0
   \<and> portfolioEntries divergent_ledger 1 = [\<lparr> encryptedValue = 3, encryptedWeight = 2 \<rparr>]
   \<and> myCallback mock_fhe divergent_ledger 9 0 eleven_encoded [1] = Inl StateMismatch"
proof -
  note r = two_entry_requested_eq
  have e: "portfolioEntries two_entry_later 1 = portfolioEntries two_entry_ledger 1"
    by (simp add: two_entry_later_fields two_entry_ledger_fields)
  have c: "decryptionContexts two_entry_later 0 = decryptionContexts two_entry_requested 0"
    by (simp add: two_entry_later_fields two_entry_requested_fields)
  have a: "spec_aggregate mock_fhe (portfolioEntries two_entry_ledger 1) = 11"
    by (simp add: two_entry_ledger_fields spec_aggregate_def mock_fhe_def)
  have h: "stateHash (decryptionContexts two_entry_later 0) = 8164"
    by (simp add: two_entry_later_fields)
  have d: "decryptionContexts divergent_ledger 0 = decryptionContexts two_entry_requested 0"
    "portfolioEntries divergent_ledger 1 = [\<lparr> encryptedValue = 3, encryptedWeight = 2 \<rparr>]"
    by (simp_all add: divergent_ledger_def two_entry_later_fields two_entry_requested_fields)
  have m: "hashCiphertexts mock_fhe
             [FHE_toBytes32 mock_fhe (spec_aggregate mock_fhe (portfolioEntries divergent_ledger 1))]
           \<noteq> hashCiphertexts mock_fhe
             [FHE_toBytes32 mock_fhe (spec_aggregate mock_fhe (portfolioEntries two_entry_ledger 1))]"
    by (simp add: d two_entry_ledger_fields spec_aggregate_def hashCiphertexts_def mock_fhe_def)
  have v: "FHE_checkSignatures mock_fhe 0 eleven_encoded [1]"
    "\<not> FHE_checkSignatures mock_fhe 0 eleven_encoded [2]"
    "FHE_checkSignatures mock_fhe 0 [] [1]"
    "abi_decode_uint256 [] = None"
    by (simp_all add: mock_fhe_def abi_decode_uint256_def)
  note good = aggregate_recomputed_at_finalize [OF r e c, of 9 eleven_encoded "[1]" divergent_ledger]
  note bad = aggregate_recomputed_at_finalize [OF r e c, of 9 eleven_encoded "[2]" divergent_ledger]
  note short = aggregate_recomputed_at_finalize [OF r e c, of 9 "[]" "[1]" divergent_ledger]
  have g1: "\<not> isl (myCallback mock_fhe two_entry_later 9 0 eleven_encoded [1])"
    and g2: "processed (decryptionContexts
        (projr (myCallback mock_fhe two_entry_later 9 0 eleven_encoded [1])) 0)"
    and g3: "last (events (projr (myCallback mock_fhe two_entry_later 9 0 eleven_encoded [1])))
       = PortfolioValuationCompleted 0 1 11"
    using good by (simp_all add: v eleven_decoded)
  have b1: "myCallback mock_fhe two_entry_later 9 0 eleven_encoded [2] = Inl InvalidProof"
    using bad by (simp add: v)
  have s1: "myCallback mock_fhe two_entry_later 9 0 [] [1] = Inl AbiDecodeRevert"
    using short by (simp add: v)
  have x: "myCallback mock_fhe divergent_ledger 9 0 eleven_encoded [1] = Inl StateMismatch"
    using good d m by simp
  from r e c a h g1 g2 g3 b1 s1 d x two_entry_ledger_fields(7) two_entry_later_fields(1)
  show ?thesis by simp
qed

subsection \<open>Batch lifecycle\<close>

lemma openNewBatch_increases:
  assumes "\<not> isl (openNewBatch s sender)"
  shows "currentBatchId s < currentBatchId (projr (openNewBatch s sender))"
proof -
  from assms obtain s' where s': "openNewBatch s sender = Inr s'"
    by (cases "openNewBatch s sender") auto
  then have "dispatch F s sender now OpenNewBatch = Inr s'" for F now by simp
  from dispatch_currentBatchId(3) [OF this] show ?thesis by (simp add: s')
qed

lemma closeCurrentBatch_closed:
  assumes "isBatchClosed s (currentBatchId s)"
  shows "isl (closeCurrentBatch s caller)"
    and "caller = owner s \<Longrightarrow> \<not> paused s \<Longrightarrow> closeCurrentBatch s caller = Inl InvalidBatch"
  using assms by (auto simp: closeCurrentBatch_def onlyOwner_def whenNotPaused_def)

lemma closeCurrentBatch_closed_exact:
  assumes "isBatchClosed s (currentBatchId s)"
  shows "closeCurrentBatch s caller =
           (if caller \<noteq> owner s then Inl NotOwner
            else if paused s then Inl PausedError else Inl InvalidBatch)"
  using assms by (simp add: closeCurrentBatch_def onlyOwner_def whenNotPaused_def)

lemma lifecycle_fields:
  "currentBatchId (reachable mock_fhe 1 lifecycle_txs) = 2"
  "isBatchClosed (reachable mock_fhe 1 lifecycle_txs) 2"
  "owner (reachable mock_fhe 1 lifecycle_txs) = 1"
  "\<not> paused (reachable mock_fhe 1 lifecycle_txs)"
  "currentBatchId (reachable mock_fhe 1 (lifecycle_txs @ lifecycle_later)) = 3"
  "owner (reachable mock_fhe 1 (lifecycle_txs @ lifecycle_later)) = 1"
  "\<not> paused (reachable mock_fhe 1 (lifecycle_txs @ lifecycle_later))"
  "\<not> isBatchClosed (reachable mock_fhe 1 (lifecycle_txs @ lifecycle_later)) 3"
  by (simp_all add: lifecycle_txs_def lifecycle_later_def eval_defs)

lemma lifecycle_paused_fields:
  "currentBatchId (reachable mock_fhe 1 lifecycle_paused_txs) = 2"
  "isBatchClosed (reachable mock_fhe 1 lifecycle_paused_txs) 2"
  "owner (reachable mock_fhe 1 lifecycle_paused_txs) = 1"
  "paused (reachable mock_fhe 1 lifecycle_paused_txs)"
  by (simp_all add: lifecycle_paused_txs_def eval_defs)

text \<open>
  Claim C6, amended. Along every sequence of transactions from the constructor:
  \<open>currentBatchId\<close> never decreases, and the id a successful \<open>openNewBatch\<close>
  allocates is strictly greater than the current id of every earlier ledger, so no id is
  allocated twice. Every closed flag is false after the constructor; a flag turns true
  only through a \<open>closeCurrentBatch\<close> on the batch that is current; a flag that is true
  stays true through every later transaction. A \<open>closeCurrentBatch\<close> on a current batch
  that is already closed aborts for every caller and leaves the ledger as it was: with
  \<open>NotOwner\<close> for a caller who is not the owner, else with \<open>PausedError\<close> while the
  contract is paused, else with \<open>InvalidBatch\<close>.
\<close>

theorem batch_lifecycle_monotone:
  "currentBatchId (reachable F deployer txs) \<le> currentBatchId (reachable F deployer (txs @ later))
   \<and> (\<not> isl (openNewBatch (reachable F deployer (txs @ later)) sender) \<longrightarrow>
        currentBatchId (reachable F deployer txs)
          < currentBatchId (projr (openNewBatch (reachable F deployer (txs @ later)) sender)))
   \<and> \<not> isBatchClosed (constructor deployer) b0
   \<and> (\<not> isBatchClosed (reachable F deployer (txs @ later)) b1
        \<and> isBatchClosed (exec F (reachable F deployer (txs @ later)) (sender, now, c)) b1 \<longrightarrow>
        c = CloseCurrentBatch \<and> b1 = currentBatchId (reachable F deployer (txs @ later)))
   \<and> (isBatchClosed (reachable F deployer txs) b \<longrightarrow>
        isBatchClosed (reachable F deployer (txs @ later)) b)
   \<and> (isBatchClosed (reachable F deployer txs) (currentBatchId (reachable F deployer txs)) \<longrightarrow>
        isl (closeCurrentBatch (reachable F deployer txs) caller)
        \<and> (caller = owner (reachable F deployer txs) \<and> \<not> paused (reachable F deployer txs) \<longrightarrow>
             closeCurrentBatch (reachable F deployer txs) caller = Inl InvalidBatch)
        \<and> closeCurrentBatch (reachable F deployer txs) caller =
             (if caller \<noteq> owner (reachable F deployer txs) then Inl NotOwner
              else if paused (reachable F deployer txs) then Inl PausedError
              else Inl InvalidBatch)
        \<and> exec F (reachable F deployer txs) (caller, now, CloseCurrentBatch)
             = reachable F deployer txs)"
proof -
  let ?s = "reachable F deployer txs"
  let ?s' = "reachable F deployer (txs @ later)"
  have split: "?s' = run F ?s later"
    by (simp add: reachable_def run_append)
  have mono: "currentBatchId ?s \<le> currentBatchId ?s'"
    unfolding split by (rule run_currentBatchId)
  have strict: "currentBatchId ?s < currentBatchId (projr (openNewBatch ?s' sender))"
    if "\<not> isl (openNewBatch ?s' sender)"
    using mono openNewBatch_increases [OF that] by simp
  have init: "\<not> isBatchClosed (constructor deployer) b0"
    by (simp add: constructor_def)
  have newly: "c = CloseCurrentBatch \<and> b1 = currentBatchId ?s'"
    if "\<not> isBatchClosed ?s' b1 \<and> isBatchClosed (exec F ?s' (sender, now, c)) b1"
    using exec_newly_closed [of ?s' b1 F sender now c] that by simp
  have keep: "isBatchClosed ?s' b" if "isBatchClosed ?s b"
    unfolding split by (rule run_closed_persists [OF reachable_closed_bounded that])
  have again: "isl (closeCurrentBatch ?s caller)
        \<and> (caller = owner ?s \<and> \<not> paused ?s \<longrightarrow> closeCurrentBatch ?s caller = Inl InvalidBatch)
        \<and> closeCurrentBatch ?s caller =
             (if caller \<noteq> owner ?s then Inl NotOwner
              else if paused ?s then Inl PausedError else Inl InvalidBatch)
        \<and> exec F ?s (caller, now, CloseCurrentBatch) = ?s"
    if "isBatchClosed ?s (currentBatchId ?s)"
  proof -
    note x = closeCurrentBatch_closed_exact [OF that, of caller]
    have "isl (closeCurrentBatch ?s caller)" by (simp add: x)
    then have "exec F ?s (caller, now, CloseCurrentBatch) = ?s"
      by (simp add: exec_reverted)
    then show ?thesis using x closeCurrentBatch_closed [OF that] by simp
  qed
  from mono strict init newly keep again show ?thesis by blast
qed

theorem batch_lifecycle_monotone_witness:
  "currentBatchId (reachable mock_fhe 1 lifecycle_txs) = 2
   \<and> currentBatchId (reachable mock_fhe 1 (lifecycle_txs @ lifecycle_later)) = 3
   \<and> \<not> isl (openNewBatch (reachable mock_fhe 1 (lifecycle_txs @ lifecycle_later)) 1)
   \<and> 2 < currentBatchId (projr (openNewBatch (reachable mock_fhe 1 (lifecycle_txs @ lifecycle_later)) 1))
   \<and> \<not> isBatchClosed (reachable mock_fhe 1 (lifecycle_txs @ lifecycle_later)) 3
   \<and> isBatchClosed (exec mock_fhe (reachable mock_fhe 1 (lifecycle_txs @ lifecycle_later))
        (1, 13, CloseCurrentBatch)) 3
   \<and> isBatchClosed (reachable mock_fhe 1 lifecycle_txs) 2
   \<and> isBatchClosed (reachable mock_fhe 1 (lifecycle_txs @ lifecycle_later)) 2
   \<and> closeCurrentBatch (reachable mock_fhe 1 lifecycle_txs) 1 = Inl InvalidBatch
   \<and> exec mock_fhe (reachable mock_fhe 1 lifecycle_txs) (1, 13, CloseCurrentBatch)
       = reachable mock_fhe 1 lifecycle_txs
   \<and> closeCurrentBatch (reachable mock_fhe 1 lifecycle_txs) 5 = Inl NotOwner
   \<and> isBatchClosed (reachable mock_fhe 1 lifecycle_paused_txs)
        (currentBatchId (reachable mock_fhe 1 lifecycle_paused_txs))
   \<and> paused (reachable mock_fhe 1 lifecycle_paused_txs)
   \<and> closeCurrentBatch (reachable mock_fhe 1 lifecycle_paused_txs) 1 = Inl PausedError
   \<and> closeCurrentBatch (reachable mock_fhe 1 lifecycle_paused_txs) 5 = Inl NotOwner"
proof -
  have o: "\<not> isl (openNewBatch (reachable mock_fhe 1 (lifecycle_txs @ lifecycle_later)) 1)"
    by (simp add: openNewBatch_def onlyOwner_def whenNotPaused_def checked_add_def lifecycle_fields)
  have c: "isBatchClosed (exec mock_fhe (reachable mock_fhe 1 (lifecycle_txs @ lifecycle_later))
        (1, 13, CloseCurrentBatch)) 3"
    by (simp add: exec.simps closeCurrentBatch_def onlyOwner_def whenNotPaused_def lifecycle_fields)
  note owner_call = batch_lifecycle_monotone [where F = mock_fhe and deployer = 1
      and txs = lifecycle_txs and later = lifecycle_later and sender = 1 and ?b0.0 = 0
      and ?b1.0 = 3 and now = 13 and c = CloseCurrentBatch and b = 2 and caller = 1]
  note other_call = batch_lifecycle_monotone [where F = mock_fhe and deployer = 1
      and txs = lifecycle_txs and later = lifecycle_later and sender = 1 and ?b0.0 = 0
      and ?b1.0 = 3 and now = 13 and c = CloseCurrentBatch and b = 2 and caller = 5]
  note paused_owner = batch_lifecycle_monotone [where F = mock_fhe and deployer = 1
      and txs = lifecycle_paused_txs and later = "[]" and sender = 1 and ?b0.0 = 0
      and ?b1.0 = 3 and now = 13 and c = CloseCurrentBatch and b = 2 and caller = 1]
  note paused_other = batch_lifecycle_monotone [where F = mock_fhe and deployer = 1
      and txs = lifecycle_paused_txs and later = "[]" and sender = 1 and ?b0.0 = 0
      and ?b1.0 = 3 and now = 13 and c = CloseCurrentBatch and b = 2 and caller = 5]
  have 1: "closeCurrentBatch (reachable mock_fhe 1 lifecycle_txs) 5 = Inl NotOwner"
    using other_call by (simp add: lifecycle_fields)
  have 2: "closeCurrentBatch (reachable mock_fhe 1 lifecycle_paused_txs) 1 = Inl PausedError"
    using paused_owner by (simp add: lifecycle_paused_fields)
  have 3: "closeCurrentBatch (reachable mock_fhe 1 lifecycle_paused_txs) 5 = Inl NotOwner"
    using paused_other by (simp add: lifecycle_paused_fields)
  have 4: "closeCurrentBatch (reachable mock_fhe 1 lifecycle_txs) 1 = Inl InvalidBatch
      \<and> exec mock_fhe (reachable mock_fhe 1 lifecycle_txs) (1, 13, CloseCurrentBatch)
          = reachable mock_fhe 1 lifecycle_txs
      \<and> isBatchClosed (reachable mock_fhe 1 (lifecycle_txs @ lifecycle_later)) 2
      \<and> 2 < currentBatchId (projr (openNewBatch (reachable mock_fhe 1 (lifecycle_txs @ lifecycle_later)) 1))"
    using owner_call o by (simp add: lifecycle_fields)
  from 1 2 3 4 o c lifecycle_fields lifecycle_paused_fields show ?thesis by simp
qed

text \<open>
  The claim as stated fails for a caller who is not the owner: batch 2 is current and
  closed, and \<open>closeCurrentBatch\<close> from address 2 aborts with \<open>NotOwner\<close>.
\<close>

theorem close_closed_batch_not_owner_counterexample:
  "isBatchClosed (reachable mock_fhe 1 lifecycle_txs)
     (currentBatchId (reachable mock_fhe 1 lifecycle_txs))
   \<and> closeCurrentBatch (reachable mock_fhe 1 lifecycle_txs) 2 = Inl NotOwner
   \<and> closeCurrentBatch (reachable mock_fhe 1 lifecycle_txs) 2 \<noteq> Inl InvalidBatch"
  by (simp add: closeCurrentBatch_def onlyOwner_def lifecycle_fields)

subsection \<open>A bypassed batch\<close>












subsection \<open>Decryption contexts\<close>

lemma myCallback_Inr:
  assumes "myCallback F s c requestId cleartexts prf = Inr s1"
  shows "\<not> processed (decryptionContexts s requestId)"
    and "processed (decryptionContexts s1 requestId)"
    and "portfolioEntries s (batchId (decryptionContexts s requestId)) \<noteq> []"
  using assms
  by (auto simp: myCallback_def Let_def split: if_splits option.splits)

lemma myCallback_processed:
  "processed (decryptionContexts s requestId) \<Longrightarrow>
   myCallback F s c requestId cleartexts prf = Inl ReplayAttempt"
  by (simp add: myCallback_def)

lemma exec_processed_persists:
  assumes "processed (decryptionContexts s requestId)" and "\<not> registers requestId t"
  shows "processed (decryptionContexts (exec F s t) requestId)"
proof (cases t)
  case (fields sender now c)
  show ?thesis
  proof (cases rule: exec_cases [of F s sender now c])
    case reverted
    then show ?thesis using assms by (simp add: fields)
  next
    case (applied s')
    show ?thesis
    proof (cases "decryptionContexts s' requestId = decryptionContexts s requestId")
      case True
      then show ?thesis using assms by (simp add: fields applied(2))
    next
      case False
      from dispatch_decryptionContexts [OF applied(1) False] assms(2)
      obtain ct pf where "c = MyCallback requestId ct pf"
        by (auto simp: fields)
      then have "myCallback F s sender requestId ct pf = Inr s'"
        using applied(1) by simp
      then show ?thesis using myCallback_Inr(2) by (simp add: fields applied(2))
    qed
  qed
qed

lemma run_processed_persists:
  assumes "processed (decryptionContexts s requestId)"
    and "\<forall>t \<in> set txs. \<not> registers requestId t"
  shows "processed (decryptionContexts (run F s txs) requestId)"
  using assms
proof (induction txs arbitrary: s)
  case Nil
  then show ?case by (simp add: run_Nil)
next
  case (Cons t txs)
  then show ?case by (simp add: run_Cons exec_processed_persists)
qed

text \<open>
  Claim C3. A \<open>myCallback\<close> that succeeds finds the context unprocessed and leaves it
  processed. After it, through every sequence of transactions in which the library does
  not hand out the same request id again, every \<open>myCallback\<close> with that request id,
  from any caller and with any cleartexts and proof, aborts with \<open>ReplayAttempt\<close>, and
  the transaction leaves the whole ledger as it was.
\<close>

theorem replay_protection:
  assumes "myCallback F s c requestId cleartexts prf = Inr s1"
    and "\<forall>t \<in> set txs. \<not> registers requestId t"
  shows "\<not> processed (decryptionContexts s requestId)
       \<and> processed (decryptionContexts s1 requestId)
       \<and> myCallback F (run F s1 txs) c' requestId cleartexts' prf' = Inl ReplayAttempt
       \<and> exec F (run F s1 txs) (c', now', MyCallback requestId cleartexts' prf') = run F s1 txs"
proof -
  note first = myCallback_Inr [OF assms(1)]
  have "processed (decryptionContexts (run F s1 txs) requestId)"
    by (rule run_processed_persists [OF first(2) assms(2)])
  then have r: "myCallback F (run F s1 txs) c' requestId cleartexts' prf' = Inl ReplayAttempt"
    by (rule myCallback_processed)
  then have "exec F (run F s1 txs) (c', now', MyCallback requestId cleartexts' prf') = run F s1 txs"
    by (simp add: exec_reverted)
  with first r show ?thesis by simp
qed


lemma six_decoded: "abi_decode_uint256 six_encoded = Some 6"
  by (simp add: abi_decode_uint256_def six_encoded_def)

lemma finalize_requested:
  "\<not> isl (myCallback mock_fhe requested_ledger 9 0 six_encoded [1])"
  by (simp add: myCallback_def hashCiphertexts_def requested_ledger_fields mock_fhe_def
      callbackLoop.simps six_decoded)

theorem replay_protection_witness:
  "\<not> isl (myCallback mock_fhe requested_ledger 9 0 six_encoded [1])
   \<and> \<not> processed (decryptionContexts requested_ledger 0)
   \<and> processed (decryptionContexts (projr (myCallback mock_fhe requested_ledger 9 0 six_encoded [1])) 0)
   \<and> myCallback mock_fhe
        (run mock_fhe (projr (myCallback mock_fhe requested_ledger 9 0 six_encoded [1])) replay_txs)
        7 0 [] [1] = Inl ReplayAttempt
   \<and> exec mock_fhe
        (run mock_fhe (projr (myCallback mock_fhe requested_ledger 9 0 six_encoded [1])) replay_txs)
        (7, 3000, MyCallback 0 [] [1])
       = run mock_fhe (projr (myCallback mock_fhe requested_ledger 9 0 six_encoded [1])) replay_txs"
proof -
  have e: "myCallback mock_fhe requested_ledger 9 0 six_encoded [1]
           = Inr (projr (myCallback mock_fhe requested_ledger 9 0 six_encoded [1]))"
    using finalize_requested by simp
  have f: "\<forall>t \<in> set replay_txs. \<not> registers 0 t"
    by (simp add: replay_txs_def)
  from replay_protection [OF e f, of 7 "[]" "[1]" 3000] finalize_requested
  show ?thesis by simp
qed

subsection \<open>A request id that was never registered\<close>

lemma unregistered_myCallback:
  "unregistered requestId s \<Longrightarrow> myCallback F s c requestId cleartexts prf = Inl InvalidBatch"
  by (simp add: unregistered_def myCallback_def)

lemma constructor_unregistered: "unregistered requestId (constructor deployer)"
  by (simp add: unregistered_def constructor_def)

lemma exec_unregistered:
  assumes "unregistered requestId s" and "\<not> registers requestId t"
  shows "unregistered requestId (exec F s t)"
proof (cases t)
  case (fields sender now c)
  show ?thesis
  proof (cases rule: exec_cases [of F s sender now c])
    case reverted
    then show ?thesis using assms by (simp add: fields)
  next
    case (applied s')
    have "currentBatchId s \<le> currentBatchId s'"
      by (rule dispatch_currentBatchId(1) [OF applied(1)])
    then have cur: "currentBatchId s' \<noteq> 0"
      using assms(1) by (auto simp: unregistered_def)
    have ent: "portfolioEntries s' 0 = []"
      using dispatch_portfolioEntries(1) [OF applied(1), of 0] assms(1)
      by (auto simp: unregistered_def)
    have ctx: "decryptionContexts s' requestId = decryptionContexts s requestId"
    proof (rule ccontr)
      assume changed: "decryptionContexts s' requestId \<noteq> decryptionContexts s requestId"
      from dispatch_decryptionContexts [OF applied(1) changed] assms(2)
      obtain ct pf where "c = MyCallback requestId ct pf"
        by (auto simp: fields)
      then have "myCallback F s sender requestId ct pf = Inr s'"
        using applied(1) by simp
      then show False using unregistered_myCallback [OF assms(1)] by simp
    qed
    show ?thesis using cur ent ctx assms(1) by (simp add: fields applied(2) unregistered_def)
  qed
qed

lemma run_unregistered:
  assumes "unregistered requestId s" and "\<forall>t \<in> set txs. \<not> registers requestId t"
  shows "unregistered requestId (run F s txs)"
  using assms
proof (induction txs arbitrary: s)
  case Nil
  then show ?case by (simp add: run_Nil)
next
  case (Cons t txs)
  then show ?case by (simp add: run_Cons exec_unregistered)
qed

text \<open>
  Claim C9. In a ledger reached from the constructor by transactions none of which
  registered a context for \<open>requestId\<close>, the context is the default one
  (\<open>batchId = 0\<close>, \<open>processed = False\<close>) and batch 0 has no entries. \<open>myCallback\<close>
  with that id therefore passes the replay check and aborts with \<open>InvalidBatch\<close> at the
  empty-entries check, whatever the cleartexts and the proof are, and the transaction
  leaves the ledger as it was.
\<close>

theorem unregistered_callback_invalid_batch:
  assumes "\<forall>t \<in> set txs. \<not> registers requestId t"
  shows "decryptionContexts (reachable F deployer txs) requestId
           = \<lparr> batchId = 0, stateHash = 0, processed = False \<rparr>
       \<and> portfolioEntries (reachable F deployer txs) 0 = []
       \<and> myCallback F (reachable F deployer txs) c requestId cleartexts prf = Inl InvalidBatch
       \<and> exec F (reachable F deployer txs) (c, now, MyCallback requestId cleartexts prf)
           = reachable F deployer txs"
proof -
  have u: "unregistered requestId (reachable F deployer txs)"
    unfolding reachable_def by (rule run_unregistered [OF constructor_unregistered assms])
  then have m: "myCallback F (reachable F deployer txs) c requestId cleartexts prf = Inl InvalidBatch"
    by (rule unregistered_myCallback)
  then have "exec F (reachable F deployer txs) (c, now, MyCallback requestId cleartexts prf)
           = reachable F deployer txs"
    by (simp add: exec_reverted)
  with u m show ?thesis by (simp add: unregistered_def)
qed

theorem unregistered_callback_invalid_batch_witness:
  "\<not> registers 4 (1, 100, AddProvider 2)
   \<and> \<not> registers 4 (2, 1000, SubmitEncryptedNFT 3 2)
   \<and> \<not> registers 4 (1, 1001, OpenNewBatch)
   \<and> FHE_checkSignatures mock_fhe 4 six_encoded [1]
   \<and> myCallback mock_fhe (reachable mock_fhe 1 unrequested_txs) 9 4 six_encoded [1] = Inl InvalidBatch
   \<and> exec mock_fhe (reachable mock_fhe 1 unrequested_txs) (9, 2000, MyCallback 4 six_encoded [1])
       = reachable mock_fhe 1 unrequested_txs"
proof -
  have f: "\<forall>t \<in> set unrequested_txs. \<not> registers 4 t"
    by (simp add: unrequested_txs_def)
  from unregistered_callback_invalid_batch [OF f, of mock_fhe 1 9 six_encoded "[1]" 2000]
  show ?thesis by (simp add: mock_fhe_def)
qed

subsection \<open>Submission into a closed batch\<close>

lemma submit_Inr:
  assumes "submitEncryptedNFT F s sender now v w = Inr s'"
  shows "\<not> isBatchClosed s (currentBatchId s)"
    and "portfolioEntries s' = (portfolioEntries s)
           (currentBatchId s := portfolioEntries s (currentBatchId s) @
              [\<lparr> encryptedValue = v, encryptedWeight = w \<rparr>])"
    and "isBatchClosed s' = isBatchClosed s"
    and "currentBatchId s' = currentBatchId s"
  using assms
  by (auto simp: submitEncryptedNFT_def onlyProvider_def whenNotPaused_def respectCooldown_def
      initIfNeeded_def Let_def split: if_splits option.splits)

text \<open>
  Claim C5. For a provider whose call passes the pause and cooldown modifiers and whose
  two handles are initialised, \<open>submitEncryptedNFT\<close> aborts exactly when the current
  batch is closed, and the abort is the error named \<open>BatchNotClosed\<close>; otherwise the
  call succeeds. Whenever the call succeeds the current batch is open, the entry is
  appended to it, and the entry list of every closed batch is what it was.
\<close>

theorem submit_rejects_closed_batch:
  assumes "isProvider s sender"
    and "whenNotPaused s (respectCooldown s sender now (Inr ())) = Inr ()"
    and "FHE_isInitialized F v" and "FHE_isInitialized F w"
  shows "(isBatchClosed s (currentBatchId s) \<longrightarrow>
            submitEncryptedNFT F s sender now v w = Inl BatchNotClosed)
       \<and> (\<not> isBatchClosed s (currentBatchId s) \<longrightarrow>
            \<not> isl (submitEncryptedNFT F s sender now v w)
            \<and> portfolioEntries (projr (submitEncryptedNFT F s sender now v w)) (currentBatchId s)
              = portfolioEntries s (currentBatchId s) @ [\<lparr> encryptedValue = v, encryptedWeight = w \<rparr>])
       \<and> (isl (submitEncryptedNFT F s sender now v w) \<longleftrightarrow> isBatchClosed s (currentBatchId s))
       \<and> (\<not> isl (submitEncryptedNFT F s sender now v w) \<and> isBatchClosed s b \<longrightarrow>
            b \<noteq> currentBatchId s
            \<and> portfolioEntries (projr (submitEncryptedNFT F s sender now v w)) b = portfolioEntries s b)"
proof -
  have closed: "submitEncryptedNFT F s sender now v w = Inl BatchNotClosed"
    if "isBatchClosed s (currentBatchId s)"
    using assms that
    by (auto simp: submitEncryptedNFT_def onlyProvider_def whenNotPaused_def respectCooldown_def
        initIfNeeded_def split: if_splits option.splits)
  have op: "\<not> isl (submitEncryptedNFT F s sender now v w)"
    if "\<not> isBatchClosed s (currentBatchId s)"
    using assms that
    by (auto simp: submitEncryptedNFT_def onlyProvider_def whenNotPaused_def respectCooldown_def
        initIfNeeded_def Let_def split: if_splits option.splits)
  have app: "\<not> isBatchClosed s (currentBatchId s)
      \<and> portfolioEntries (projr (submitEncryptedNFT F s sender now v w)) b' =
        (if b' = currentBatchId s
         then portfolioEntries s (currentBatchId s) @ [\<lparr> encryptedValue = v, encryptedWeight = w \<rparr>]
         else portfolioEntries s b')"
    if "\<not> isl (submitEncryptedNFT F s sender now v w)" for b'
  proof -
    from that have "submitEncryptedNFT F s sender now v w
        = Inr (projr (submitEncryptedNFT F s sender now v w))" by simp
    from submit_Inr(1,2) [OF this] show ?thesis by simp
  qed
  have c1: "isBatchClosed s (currentBatchId s) \<longrightarrow>
            submitEncryptedNFT F s sender now v w = Inl BatchNotClosed"
    using closed by simp
  have c2: "\<not> isBatchClosed s (currentBatchId s) \<longrightarrow>
            \<not> isl (submitEncryptedNFT F s sender now v w)
            \<and> portfolioEntries (projr (submitEncryptedNFT F s sender now v w)) (currentBatchId s)
              = portfolioEntries s (currentBatchId s) @ [\<lparr> encryptedValue = v, encryptedWeight = w \<rparr>]"
    using op app [of "currentBatchId s"] by simp
  have c3: "isl (submitEncryptedNFT F s sender now v w) \<longleftrightarrow> isBatchClosed s (currentBatchId s)"
    using closed op by auto
  have c4: "\<not> isl (submitEncryptedNFT F s sender now v w) \<and> isBatchClosed s b \<longrightarrow>
            b \<noteq> currentBatchId s
            \<and> portfolioEntries (projr (submitEncryptedNFT F s sender now v w)) b = portfolioEntries s b"
    using app [of b] by auto
  from c1 c2 c3 c4 show ?thesis by blast
qed


lemma reopened_ledger_fields:
  "isProvider closed_batch_ledger 2"
  "isProvider reopened_ledger 2"
  "\<not> paused reopened_ledger"
  "cooldownSeconds reopened_ledger = 60"
  "lastSubmissionTime reopened_ledger 2 = 1000"
  "currentBatchId reopened_ledger = 2"
  "isBatchClosed reopened_ledger 1"
  "\<not> isBatchClosed reopened_ledger 2"
  "portfolioEntries reopened_ledger 1 = [\<lparr> encryptedValue = 3, encryptedWeight = 2 \<rparr>]"
  "portfolioEntries reopened_ledger 2 = []"
  by (simp_all add: reopened_ledger_def eval_defs)

theorem submit_rejects_closed_batch_witness:
  "isBatchClosed closed_batch_ledger (currentBatchId closed_batch_ledger)
   \<and> submitEncryptedNFT mock_fhe closed_batch_ledger 2 2000 5 1 = Inl BatchNotClosed
   \<and> \<not> isBatchClosed reopened_ledger (currentBatchId reopened_ledger)
   \<and> \<not> isl (submitEncryptedNFT mock_fhe reopened_ledger 2 2000 5 1)
   \<and> portfolioEntries (projr (submitEncryptedNFT mock_fhe reopened_ledger 2 2000 5 1)) 2
       = [\<lparr> encryptedValue = 5, encryptedWeight = 1 \<rparr>]
   \<and> isBatchClosed reopened_ledger 1
   \<and> portfolioEntries (projr (submitEncryptedNFT mock_fhe reopened_ledger 2 2000 5 1)) 1
       = [\<lparr> encryptedValue = 3, encryptedWeight = 2 \<rparr>]"
proof -
  have i: "FHE_isInitialized mock_fhe 5" "FHE_isInitialized mock_fhe 1"
    by (simp_all add: mock_fhe_def)
  have g1: "whenNotPaused closed_batch_ledger
              (respectCooldown closed_batch_ledger 2 2000 (Inr ())) = Inr ()"
    by (simp add: whenNotPaused_def respectCooldown_def checked_add_def closed_batch_ledger_fields)
  have g2: "whenNotPaused reopened_ledger
              (respectCooldown reopened_ledger 2 2000 (Inr ())) = Inr ()"
    by (simp add: whenNotPaused_def respectCooldown_def checked_add_def reopened_ledger_fields)
  from submit_rejects_closed_batch [OF reopened_ledger_fields(1) g1 i, of 1]
    submit_rejects_closed_batch [OF reopened_ledger_fields(2) g2 i, of 1]
    closed_batch_ledger_fields reopened_ledger_fields
  show ?thesis by simp
qed

subsection \<open>The pause switch\<close>

text \<open>
  Claim C7, amended. While \<open>paused\<close> is true, \<open>openNewBatch\<close>, \<open>closeCurrentBatch\<close>,
  \<open>submitEncryptedNFT\<close> and \<open>requestPortfolioValuation\<close> abort for every caller and the
  transaction leaves the ledger unchanged. The abort is \<open>PausedError\<close> when the caller
  passes the role modifier that precedes \<open>whenNotPaused\<close> (the owner for the two batch
  functions, a provider for a submission, anyone for a request), and \<open>NotOwner\<close> or
  \<open>NotProvider\<close> otherwise. \<open>transferOwnership\<close>, \<open>addProvider\<close> and
  \<open>removeProvider\<close> succeed for the owner while paused, with their usual effect.
\<close>

theorem pause_gating:
  assumes "paused s"
  shows "requestPortfolioValuation F s sender now bId requestId = Inl PausedError
       \<and> openNewBatch s sender = (if sender = owner s then Inl PausedError else Inl NotOwner)
       \<and> closeCurrentBatch s sender = (if sender = owner s then Inl PausedError else Inl NotOwner)
       \<and> submitEncryptedNFT F s sender now v w
           = (if isProvider s sender then Inl PausedError else Inl NotProvider)
       \<and> exec F s (sender, now, OpenNewBatch) = s
       \<and> exec F s (sender, now, CloseCurrentBatch) = s
       \<and> exec F s (sender, now, SubmitEncryptedNFT v w) = s
       \<and> exec F s (sender, now, RequestPortfolioValuation bId requestId) = s
       \<and> (sender = owner s \<longrightarrow>
            \<not> isl (transferOwnership s sender a)
            \<and> owner (projr (transferOwnership s sender a)) = a
            \<and> \<not> isl (addProvider s sender a)
            \<and> isProvider (projr (addProvider s sender a)) a
            \<and> \<not> isl (removeProvider s sender a)
            \<and> \<not> isProvider (projr (removeProvider s sender a)) a)"
proof -
  have r: "requestPortfolioValuation F s sender now bId requestId = Inl PausedError"
    using assms by (simp add: requestPortfolioValuation_def whenNotPaused_def)
  have o: "openNewBatch s sender = (if sender = owner s then Inl PausedError else Inl NotOwner)"
    using assms by (simp add: openNewBatch_def onlyOwner_def whenNotPaused_def)
  have c: "closeCurrentBatch s sender = (if sender = owner s then Inl PausedError else Inl NotOwner)"
    using assms by (simp add: closeCurrentBatch_def onlyOwner_def whenNotPaused_def)
  have u: "submitEncryptedNFT F s sender now v w
           = (if isProvider s sender then Inl PausedError else Inl NotProvider)"
    using assms by (simp add: submitEncryptedNFT_def onlyProvider_def whenNotPaused_def)
  have e1: "exec F s (sender, now, OpenNewBatch) = s"
    by (rule exec_reverted) (simp add: o)
  have e2: "exec F s (sender, now, CloseCurrentBatch) = s"
    by (rule exec_reverted) (simp add: c)
  have e3: "exec F s (sender, now, SubmitEncryptedNFT v w) = s"
    by (rule exec_reverted) (simp add: u)
  have e4: "exec F s (sender, now, RequestPortfolioValuation bId requestId) = s"
    by (rule exec_reverted) (simp add: r)
  have adm: "\<not> isl (transferOwnership s sender a)
            \<and> owner (projr (transferOwnership s sender a)) = a
            \<and> \<not> isl (addProvider s sender a)
            \<and> isProvider (projr (addProvider s sender a)) a
            \<and> \<not> isl (removeProvider s sender a)
            \<and> \<not> isProvider (projr (removeProvider s sender a)) a"
    if "sender = owner s"
    using that by (simp add: transferOwnership_def addProvider_def removeProvider_def onlyOwner_def)
  from r o c u e1 e2 e3 e4 adm show ?thesis by blast
qed

lemma paused_ledger_fields:
  "paused paused_ledger" "owner paused_ledger = 1" "\<not> isProvider paused_ledger 1"
  by (simp_all add: eval_defs)

theorem pause_gating_witness:
  "paused paused_ledger
   \<and> owner paused_ledger = 1
   \<and> requestPortfolioValuation mock_fhe paused_ledger 1 50 1 0 = Inl PausedError
   \<and> openNewBatch paused_ledger 1 = Inl PausedError
   \<and> closeCurrentBatch paused_ledger 1 = Inl PausedError
   \<and> submitEncryptedNFT mock_fhe paused_ledger 1 50 3 2 = Inl NotProvider
   \<and> exec mock_fhe paused_ledger (1, 50, OpenNewBatch) = paused_ledger
   \<and> owner (projr (transferOwnership paused_ledger 1 7)) = 7
   \<and> isProvider (projr (addProvider paused_ledger 1 7)) 7
   \<and> \<not> isl (removeProvider paused_ledger 1 7)"
  using pause_gating [OF paused_ledger_fields(1), of mock_fhe 1 50 1 0 3 2 7] paused_ledger_fields
  by simp

text \<open>
  The claim as stated fails for a caller who is not the owner: on the paused ledger
  \<open>openNewBatch\<close> from address 2 aborts with \<open>NotOwner\<close>, not with the paused error.
\<close>

theorem pause_gating_not_owner_counterexample:
  "paused paused_ledger
   \<and> openNewBatch paused_ledger 2 = Inl NotOwner
   \<and> openNewBatch paused_ledger 2 \<noteq> Inl PausedError
   \<and> submitEncryptedNFT mock_fhe paused_ledger 2 50 3 2 = Inl NotProvider"
  by (simp add: eval_defs)

subsection \<open>Who may finalize\<close>

lemma myCallback_succeeds_iff:
  "\<not> isl (myCallback F s a requestId cleartexts prf) \<longleftrightarrow>
     \<not> processed (decryptionContexts s requestId)
     \<and> portfolioEntries s (batchId (decryptionContexts s requestId)) \<noteq> []
     \<and> hashCiphertexts F [FHE_toBytes32 F
           (spec_aggregate F (portfolioEntries s (batchId (decryptionContexts s requestId))))]
         = stateHash (decryptionContexts s requestId)
     \<and> FHE_checkSignatures F requestId cleartexts prf
     \<and> abi_decode_uint256 cleartexts \<noteq> None"
  by (auto simp: myCallback_def Let_def callbackLoop_spec split: option.splits)

lemma myCallback_aborts:
  "isl (myCallback F s a requestId cleartexts prf) \<Longrightarrow>
   myCallback F s a requestId cleartexts prf \<in>
     {Inl ReplayAttempt, Inl InvalidBatch, Inl StateMismatch, Inl InvalidProof, Inl AbiDecodeRevert}"
  by (auto simp: myCallback_def Let_def split: option.splits if_splits)

text \<open>
  Claim C8, amended. \<open>myCallback\<close> never reads the caller: for every ledger and all
  arguments its outcome is the same for any two calling addresses. It succeeds exactly
  when the context is not processed, the batch of the context has an entry, the
  recomputed commitment is the stored \<open>stateHash\<close>, the signatures verify and the
  cleartexts decode; when it aborts, the abort is \<open>ReplayAttempt\<close>, \<open>InvalidBatch\<close>,
  \<open>StateMismatch\<close>, \<open>InvalidProof\<close> or the revert of the decoding.
\<close>

theorem callback_caller_independent:
  "myCallback F s a requestId cleartexts prf = myCallback F s b requestId cleartexts prf
   \<and> (\<not> isl (myCallback F s a requestId cleartexts prf) \<longleftrightarrow>
        \<not> processed (decryptionContexts s requestId)
        \<and> portfolioEntries s (batchId (decryptionContexts s requestId)) \<noteq> []
        \<and> hashCiphertexts F [FHE_toBytes32 F
              (spec_aggregate F (portfolioEntries s (batchId (decryptionContexts s requestId))))]
            = stateHash (decryptionContexts s requestId)
        \<and> FHE_checkSignatures F requestId cleartexts prf
        \<and> abi_decode_uint256 cleartexts \<noteq> None)
   \<and> (isl (myCallback F s a requestId cleartexts prf) \<longrightarrow>
        myCallback F s a requestId cleartexts prf \<in>
          {Inl ReplayAttempt, Inl InvalidBatch, Inl StateMismatch, Inl InvalidProof,
           Inl AbiDecodeRevert})"
proof -
  have "myCallback F s a requestId cleartexts prf = myCallback F s b requestId cleartexts prf"
    by (simp add: myCallback_def)
  with myCallback_succeeds_iff [of F s a requestId cleartexts "prf"]
    myCallback_aborts [of F s a requestId cleartexts "prf"]
  show ?thesis by blast
qed

lemma bad_proof_on_requested:
  "myCallback mock_fhe requested_ledger 9 0 six_encoded [2] = Inl InvalidProof"
  by (simp add: myCallback_def hashCiphertexts_def requested_ledger_fields mock_fhe_def
      callbackLoop.simps)

theorem callback_caller_independent_witness:
  "\<not> isl (myCallback mock_fhe requested_ledger 9 0 six_encoded [1])
   \<and> myCallback mock_fhe requested_ledger 9 0 six_encoded [1]
       = myCallback mock_fhe requested_ledger 7 0 six_encoded [1]
   \<and> FHE_checkSignatures mock_fhe 0 six_encoded [1]
   \<and> isl (myCallback mock_fhe requested_ledger 9 0 six_encoded [2])
   \<and> myCallback mock_fhe requested_ledger 7 0 six_encoded [2] = Inl InvalidProof"
proof -
  note good = callback_caller_independent [of mock_fhe requested_ledger 9 0 six_encoded "[1]" 7]
  note bad = callback_caller_independent [of mock_fhe requested_ledger 9 0 six_encoded "[2]" 7]
  have 1: "\<not> isl (myCallback mock_fhe requested_ledger 9 0 six_encoded [1])"
    by (rule finalize_requested)
  have 2: "myCallback mock_fhe requested_ledger 9 0 six_encoded [1]
       = myCallback mock_fhe requested_ledger 7 0 six_encoded [1]"
    using good by blast
  have 3: "FHE_checkSignatures mock_fhe 0 six_encoded [1]"
    using good 1 by blast
  have 4: "isl (myCallback mock_fhe requested_ledger 9 0 six_encoded [2])"
    by (simp add: bad_proof_on_requested)
  have 5: "myCallback mock_fhe requested_ledger 7 0 six_encoded [2] = Inl InvalidProof"
    using bad bad_proof_on_requested by simp
  from 1 2 3 4 5 show ?thesis by blast
qed

text \<open>
  The claim as stated names three gates. On a fresh deployment the context of id 0 is not
  processed and the proof verifies, yet \<open>myCallback\<close> aborts, and with none of the three
  errors: the empty-entries check raises \<open>InvalidBatch\<close>.
\<close>

theorem callback_fourth_gate_counterexample:
  "\<not> processed (decryptionContexts (constructor 1) 0)
   \<and> FHE_checkSignatures mock_fhe 0 six_encoded [1]
   \<and> myCallback mock_fhe (constructor 1) 9 0 six_encoded [1] = Inl InvalidBatch
   \<and> myCallback mock_fhe (constructor 1) 9 0 six_encoded [1] \<noteq> Inl ReplayAttempt
   \<and> myCallback mock_fhe (constructor 1) 9 0 six_encoded [1] \<noteq> Inl StateMismatch
   \<and> myCallback mock_fhe (constructor 1) 9 0 six_encoded [1] \<noteq> Inl InvalidProof"
  by (simp add: myCallback_def constructor_def mock_fhe_def)

subsection \<open>Opening a batch\<close>

text \<open>
  Claim C4, amended. \<open>openNewBatch\<close> has no guard on the current batch: called by the
  owner while not paused, and unless the checked increment overflows, it succeeds whether the current batch
  is open or closed, and its outcome does not read the closed flags at all. It allocates
  the id \<open>currentBatchId + 1\<close>, marks it open and leaves the flag of the batch it moves
  away from as it was. Ids are never reused: the id allocated in any later ledger is
  strictly greater than the current id of every earlier ledger.
\<close>

theorem openNewBatch_unguarded:
  assumes "sender = owner s" and "\<not> paused s" and "checked_add (currentBatchId s) 1 \<noteq> None"
  shows "\<not> isl (openNewBatch s sender)
       \<and> isl (openNewBatch (s\<lparr> isBatchClosed := flags \<rparr>) sender) = isl (openNewBatch s sender)
       \<and> currentBatchId (projr (openNewBatch s sender)) = currentBatchId s + 1
       \<and> currentBatchId s < currentBatchId (projr (openNewBatch s sender))
       \<and> \<not> isBatchClosed (projr (openNewBatch s sender)) (currentBatchId s + 1)
       \<and> isBatchClosed (projr (openNewBatch s sender)) (currentBatchId s)
           = isBatchClosed s (currentBatchId s)
       \<and> (\<not> isl (openNewBatch (reachable F deployer (txs @ later)) caller) \<longrightarrow>
            currentBatchId (reachable F deployer txs)
              < currentBatchId (projr (openNewBatch (reachable F deployer (txs @ later)) caller)))"
proof -
  from assms(3) obtain n where n: "checked_add (currentBatchId s) 1 = Some n"
    by auto
  have ok: "openNewBatch s sender =
      Inr (s\<lparr> currentBatchId := n, isBatchClosed := (isBatchClosed s)(n := False),
              events := events s @ [BatchOpened n] \<rparr>)"
    using assms(1,2) n by (simp add: openNewBatch_def onlyOwner_def whenNotPaused_def)
  note facts = checked_add_one [OF n]
  have 1: "\<not> isl (openNewBatch s sender)" by (simp add: ok)
  have 2: "isl (openNewBatch (s\<lparr> isBatchClosed := flags \<rparr>) sender) = isl (openNewBatch s sender)"
    by (simp add: openNewBatch_def onlyOwner_def whenNotPaused_def split: option.splits)
  have 3: "currentBatchId (projr (openNewBatch s sender)) = currentBatchId s + 1"
    by (simp add: ok facts(1))
  have 4: "currentBatchId s < currentBatchId (projr (openNewBatch s sender))"
    using facts(2) by (simp add: ok)
  have 5: "\<not> isBatchClosed (projr (openNewBatch s sender)) (currentBatchId s + 1)"
    by (simp add: ok facts(1))
  have 6: "isBatchClosed (projr (openNewBatch s sender)) (currentBatchId s)
           = isBatchClosed s (currentBatchId s)"
    using facts(2) by (auto simp: ok)
  have 7: "currentBatchId (reachable F deployer txs)
              < currentBatchId (projr (openNewBatch (reachable F deployer (txs @ later)) caller))"
    if "\<not> isl (openNewBatch (reachable F deployer (txs @ later)) caller)"
  proof -
    have "currentBatchId (reachable F deployer txs) \<le> currentBatchId (reachable F deployer (txs @ later))"
      using run_currentBatchId [of "reachable F deployer txs" F later]
      by (simp add: reachable_def run_append)
    then show ?thesis using openNewBatch_increases [OF that] by simp
  qed
  from 1 2 3 4 5 6 7 show ?thesis by blast
qed


theorem openNewBatch_unguarded_witness:
  "\<not> isBatchClosed (constructor 1) (currentBatchId (constructor 1))
   \<and> \<not> isl (openNewBatch (constructor 1) 1)
   \<and> currentBatchId (projr (openNewBatch (constructor 1) 1)) = 2
   \<and> \<not> isBatchClosed (projr (openNewBatch (constructor 1) 1)) 2
   \<and> \<not> isBatchClosed (projr (openNewBatch (constructor 1) 1)) 1
   \<and> \<not> isl (openNewBatch (reachable mock_fhe 1 (lifecycle_txs @ lifecycle_later)) 1)
   \<and> currentBatchId (reachable mock_fhe 1 lifecycle_txs)
       < currentBatchId (projr (openNewBatch (reachable mock_fhe 1 (lifecycle_txs @ lifecycle_later)) 1))"
proof -
  have a: "(1 :: address) = owner (constructor 1)" "\<not> paused (constructor 1)"
    "checked_add (currentBatchId (constructor 1)) 1 \<noteq> None"
    "currentBatchId (constructor 1) = 1" "\<not> isBatchClosed (constructor 1) 1"
    by (simp_all add: constructor_def checked_add_def)
  have o: "\<not> isl (openNewBatch (reachable mock_fhe 1 (lifecycle_txs @ lifecycle_later)) 1)"
    by (simp add: openNewBatch_def onlyOwner_def whenNotPaused_def checked_add_def lifecycle_fields)
  from openNewBatch_unguarded [OF a(1,2,3), of "isBatchClosed (constructor 1)" mock_fhe 1
      lifecycle_txs lifecycle_later 1] a(4,5) o
  show ?thesis by simp
qed

text \<open>
  The claim as stated fails on a fresh deployment: batch 1 is open, and the owner's
  \<open>openNewBatch\<close> succeeds and allocates batch 2.
\<close>

theorem openNewBatch_while_open_counterexample:
  "\<not> isBatchClosed (constructor 1) (currentBatchId (constructor 1))
   \<and> \<not> paused (constructor 1)
   \<and> owner (constructor 1) = 1
   \<and> \<not> isl (openNewBatch (constructor 1) 1)
   \<and> currentBatchId (projr (openNewBatch (constructor 1) 1)) = 2"
  by (simp add: constructor_def openNewBatch_def onlyOwner_def whenNotPaused_def checked_add_def)

subsection \<open>The cooldown of a valuation request\<close>

text \<open>
  Claim C1 does not hold of the code. \<open>requestPortfolioValuation\<close> records the time of
  the request in \<open>lastDecryptionRequestTime\<close>, but its modifier \<open>respectCooldown\<close> is the
  one of \<open>submitEncryptedNFT\<close> and reads \<open>lastSubmissionTime\<close>. In the ledger below,
  address 3 requested a valuation at time 1010 and has never submitted: its second
  request one second later, well inside the cooldown of 60 seconds, is accepted. Address 2
  submitted at time 1000 and has never requested a valuation: its request at time 1011 is
  rejected with \<open>CooldownActive\<close>.
\<close>

theorem request_cooldown_reads_submission_time:
  "cooldownSeconds requested_ledger = 60
   \<and> lastDecryptionRequestTime requested_ledger 3 = 1010
   \<and> lastSubmissionTime requested_ledger 3 = 0
   \<and> \<not> isl (requestPortfolioValuation mock_fhe requested_ledger 3 1011 1 1)
   \<and> lastDecryptionRequestTime requested_ledger 2 = 0
   \<and> lastSubmissionTime requested_ledger 2 = 1000
   \<and> requestPortfolioValuation mock_fhe requested_ledger 2 1011 1 1 = Inl CooldownActive"
  by (simp add: requestPortfolioValuation_def whenNotPaused_def respectCooldown_def
      checked_add_def requested_ledger_fields Let_def)

end
